theory Spec2Isabelle
  imports Main "HOL-Library.Word"
begin

section \<open>JavaScript strings, numbers and thrown values\<close>

text \<open>
  A JavaScript string is a sequence of UTF-16 code units; the regular expression of
  \<^verbatim>\<open>generateSafeKey\<close> (no \<^verbatim>\<open>u\<close> flag), \<^verbatim>\<open>split\<close>, \<^verbatim>\<open>replace\<close> and \<^verbatim>\<open>substring\<close> all work
  on code units. \<open>str\<close> writes an ASCII literal.
\<close>

type_synonym unit16 = "16 word"
type_synonym jsstring = "unit16 list"

definition str :: "string \<Rightarrow> jsstring" where
  "str s = map of_char s"

text \<open>
  The numbers of this service (sizes, page numbers, limits, timestamps, expiry seconds) are
  integral: every numeric request field is declared \<^verbatim>\<open>.int()\<close> in the schemas. They are
  modelled as \<open>int\<close> (\<open>nat\<close> for clock readings and configured seconds); fractions, NaN
  and infinities are outside the model. A number is falsy exactly when it is 0.
\<close>

definition digitChar :: "nat \<Rightarrow> unit16" where
  "digitChar d = str ''0123456789abcdefghijklmnopqrstuvwxyz'' ! d"

text \<open>
  Number.prototype.toString() of a non-negative integer below 10^21: its decimal digits.
  From 10^21 on JavaScript prints the exponent form, and this function still all the digits.
\<close>

fun numberToString :: "nat \<Rightarrow> jsstring" where
  "numberToString n =
     (if n < 10 then [digitChar n] else numberToString (n div 10) @ [digitChar (n mod 10)])"

declare numberToString.simps [simp del]

definition intToString :: "int \<Rightarrow> jsstring" where
  "intToString i = (if i < 0 then str ''-'' @ numberToString (nat (- i)) else numberToString (nat i))"

text \<open>
  \<^verbatim>\<open>Math.random()\<close> returns a double in [0, 1). It is represented by the base-36 digits of
  its fraction as \<^verbatim>\<open>toString(36)\<close> prints them (no digit for 0); \<open>fractionToString36\<close> is
  that printing.
\<close>

definition fractionToString36 :: "nat list \<Rightarrow> jsstring" where
  "fractionToString36 ds = (if ds = [] then str ''0'' else str ''0.'' @ map digitChar ds)"

definition substring :: "jsstring \<Rightarrow> nat \<Rightarrow> nat \<Rightarrow> jsstring" where
  "substring s a b = (let lo = min a b; hi = max a b in take (hi - lo) (drop lo s))"

text \<open>\<^verbatim>\<open>s.split(sep)\<close> and \<^verbatim>\<open>parts.join(sep)\<close> for a separator of one code unit.\<close>

fun split :: "unit16 \<Rightarrow> jsstring \<Rightarrow> jsstring list" where
  "split sep [] = [[]]"
| "split sep (c # cs) =
     (if c = sep then [] # split sep cs
      else (let r = split sep cs in (c # hd r) # tl r))"

fun join :: "jsstring \<Rightarrow> jsstring list \<Rightarrow> jsstring" where
  "join sep [] = []"
| "join sep [p] = p"
| "join sep (p # q # ps) = p @ sep @ join sep (q # ps)"

text \<open>\<^verbatim>\<open>s.slice(n)\<close> on an array, for \<open>n \<ge> 0\<close>.\<close>

definition slice :: "nat \<Rightarrow> 'a list \<Rightarrow> 'a list" where
  "slice n xs = drop n xs"

text \<open>\<^verbatim>\<open>s.replace(pat, rep)\<close> with a string pattern: the leftmost occurrence only.\<close>

definition startsWith :: "jsstring \<Rightarrow> jsstring \<Rightarrow> bool" where
  "startsWith s pat = (take (length pat) s = pat)"

fun replace :: "jsstring \<Rightarrow> jsstring \<Rightarrow> jsstring \<Rightarrow> jsstring" where
  "replace [] pat rep = (if pat = [] then rep else [])"
| "replace (c # cs) pat rep =
     (if startsWith (c # cs) pat then rep @ drop (length pat) (c # cs)
      else c # replace cs pat rep)"

definition endsWith :: "jsstring \<Rightarrow> jsstring \<Rightarrow> bool" where
  "endsWith s suf = (length suf \<le> length s \<and> drop (length s - length suf) s = suf)"

text \<open>
  A value thrown by the platform or by the S3 SDK, as far as the code looks at it: the
  \<^verbatim>\<open>name\<close> property of a thrown object, or a thrown value without one.
\<close>

datatype thrown = ErrorNamed jsstring | NonError

text \<open>An instant is its epoch milliseconds; \<open>ToISOString\<close> stands for its ISO-8601 text.\<close>

datatype isoString = ToISOString nat

text \<open>
  The built-ins the metadata code calls. They belong to the platform, not to the
  repository, and are parameters of the model; section ``A platform instance'' gives the
  instance the closed theorems evaluate. \<open>JSON_parse\<close> is taken at the type the source
  assigns its result to (\<^verbatim>\<open>string[]\<close>).
\<close>

record platform =
  encodeURIComponent :: "jsstring \<Rightarrow> thrown + jsstring"
  decodeURIComponent :: "jsstring \<Rightarrow> thrown + jsstring"
  JSON_stringify :: "jsstring list \<Rightarrow> jsstring"
  JSON_parse :: "jsstring \<Rightarrow> thrown + jsstring list"

section \<open>Errors (utils/errors)\<close>

datatype zodIssue = invalid_type | too_small | too_big

datatype appError =
    ValidationError jsstring "(jsstring \<times> zodIssue) list option"
  | NotFoundError jsstring
  | UnauthorizedError jsstring
  | ForbiddenError jsstring
  | S3Error jsstring thrown

text \<open>
  Modelled from the spec: the error classes of \<^verbatim>\<open>utils/errors\<close> are not among the source
  files. Section 7 of the specification gives the status of each kind: ValidationError 400,
  NotFoundError 404, UnauthorizedError 401, ForbiddenError 403, and the storage error a
  fault of the 5xx class (500 here).
\<close>

fun statusCode :: "appError \<Rightarrow> nat" where
  "statusCode (ValidationError _ _) = 400"
| "statusCode (NotFoundError _) = 404"
| "statusCode (UnauthorizedError _) = 401"
| "statusCode (ForbiddenError _) = 403"
| "statusCode (S3Error _ _) = 500"

section \<open>Configuration (config/env)\<close>

text \<open>
  The parsed environment. The four MIME lists are the comma-separated variables after
  \<^verbatim>\<open>split(',').map(trim)\<close>.
\<close>

record env =
  S3_BUCKET_NAME :: jsstring
  S3_PREFIX :: jsstring
  PRESIGN_EXPIRY_SECONDS :: nat
  PRESIGN_GET_EXPIRY_SECONDS :: nat
  MAX_FILE_SIZE_MB :: int
  ALLOWED_IMAGE_TYPES :: "jsstring list"
  ALLOWED_VIDEO_TYPES :: "jsstring list"
  ALLOWED_DOCUMENT_TYPES :: "jsstring list"
  ALLOWED_AUDIO_TYPES :: "jsstring list"

record config =
  aws_bucketName :: jsstring
  aws_prefix :: jsstring
  presign_uploadExpirySeconds :: nat
  presign_getExpirySeconds :: nat
  upload_maxFileSizeBytes :: int
  upload_maxFileSizeMB :: int
  upload_allAllowedTypes :: "jsstring list"

definition mkConfig :: "env \<Rightarrow> config" where
  "mkConfig e =
     \<lparr> aws_bucketName = S3_BUCKET_NAME e,
       aws_prefix = (if endsWith (S3_PREFIX e) (str ''/'') then S3_PREFIX e
                     else S3_PREFIX e @ str ''/''),
       presign_uploadExpirySeconds = PRESIGN_EXPIRY_SECONDS e,
       presign_getExpirySeconds = PRESIGN_GET_EXPIRY_SECONDS e,
       upload_maxFileSizeBytes = MAX_FILE_SIZE_MB e * 1024 * 1024,
       upload_maxFileSizeMB = MAX_FILE_SIZE_MB e,
       upload_allAllowedTypes =
         ALLOWED_IMAGE_TYPES e @ ALLOWED_VIDEO_TYPES e @ ALLOWED_DOCUMENT_TYPES e
           @ ALLOWED_AUDIO_TYPES e \<rparr>"

section \<open>Core types (types/index)\<close>

text \<open>A value of unknown type stored under an extra metadata key.\<close>

datatype jsvalue = JSNull | JSBool bool | JSNumber int | JSString jsstring | JSArray "jsvalue list"

text \<open>
  \<^verbatim>\<open>FileMetadata\<close>: the five named optional fields and the index signature
  \<^verbatim>\<open>[key: string]: unknown\<close> (\<open>extension\<close>, the other keys in insertion order).
\<close>

record FileMetadata =
  userId :: "jsstring option"
  originalFilename :: "jsstring option"
  tags :: "jsstring list option"
  isPublic :: "bool option"
  description :: "jsstring option"
  extension :: "(jsstring \<times> jsvalue) list"

definition emptyMetadata :: FileMetadata where
  "emptyMetadata =
     \<lparr> userId = None, originalFilename = None, tags = None, isPublic = None,
       description = None, extension = [] \<rparr>"

record PresignUploadRequest =
  req_filename :: jsstring
  req_contentType :: jsstring
  req_size :: "int option"
  req_metadata :: "FileMetadata option"

datatype httpMethod = PUT

record PresignUploadResponse =
  uploadUrl :: jsstring
  uploadMethod :: httpMethod
  up_key :: jsstring
  up_expiresAt :: isoString
  up_fileId :: "jsstring option"

record PresignGetResponse =
  get_url :: jsstring
  get_expiresAt :: isoString

record FileRecord =
  file_key :: jsstring
  file_filename :: jsstring
  file_contentType :: jsstring
  file_size :: int
  file_uploadedAt :: isoString

record ListFilesQuery =
  q_userId :: "jsstring option"
  q_tags :: "jsstring option"
  q_page :: "int option"
  q_limit :: "int option"
  q_prefix :: "jsstring option"

record Pagination =
  page :: int
  limit :: int
  total :: int
  hasMore :: bool

record ListFilesResponse =
  files :: "FileRecord list"
  pagination :: Pagination

record UploadCompleteRequest =
  complete_key :: jsstring
  complete_metadata :: "FileMetadata option"

record UploadCompleteResult =
  success :: bool
  message :: jsstring
  result_key :: jsstring

section \<open>The S3 client and the world\<close>

text \<open>
  The command inputs the service builds. The input of \<^verbatim>\<open>PutObjectCommand\<close> is an object
  literal: the members \<^verbatim>\<open>Bucket\<close>, \<^verbatim>\<open>Key\<close>, \<^verbatim>\<open>ContentType\<close>, \<^verbatim>\<open>ContentLength\<close> and \<^verbatim>\<open>Metadata\<close>
  are those \<^verbatim>\<open>PutObjectCommandInput\<close> declares; \<open>put_spread\<close> holds every other property
  of the literal under its own name, in insertion order: the properties spread from
  \<^verbatim>\<open>metadataHeaders\<close>.
\<close>

record PutObjectInput =
  put_Bucket :: jsstring
  put_Key :: jsstring
  put_ContentType :: jsstring
  put_Metadata :: "(jsstring \<times> jsstring) list option"
  put_spread :: "(jsstring \<times> jsstring) list"
  put_ContentLength :: "int option"

record ObjectInput =
  Bucket :: jsstring
  Key :: jsstring

record ListObjectsV2Input =
  list_Bucket :: jsstring
  list_Prefix :: jsstring
  list_MaxKeys :: int
  list_ContinuationToken :: "jsstring option"

datatype command =
    PutObjectCommand PutObjectInput
  | GetObjectCommand ObjectInput
  | DeleteObjectCommand ObjectInput
  | HeadObjectCommand ObjectInput
  | ListObjectsV2Command ListObjectsV2Input

text \<open>A call into the SDK: \<^verbatim>\<open>getSignedUrl(client, command, {expiresIn})\<close> or \<^verbatim>\<open>client.send(command)\<close>.\<close>

datatype s3call = GetSignedUrl command nat | Send command

record HeadObjectOutput =
  head_Metadata :: "(jsstring \<times> jsstring) list option"
  head_ContentType :: "jsstring option"
  head_ContentLength :: "int option"
  head_LastModified :: "nat option"

record S3Object =
  obj_Key :: "jsstring option"
  obj_Size :: "int option"
  obj_LastModified :: "nat option"

record ListObjectsV2Output =
  out_Contents :: "S3Object list option"
  out_NextContinuationToken :: "jsstring option"
  out_IsTruncated :: "bool option"

text \<open>
  Everything outside the process: the clock (\<open>clock w k\<close> is the k-th reading, \<open>reads\<close>
  counts them), the random generator (likewise), the answers of the signer and of the
  store to each command, and the log of the SDK calls made so far. Logging through
  \<^verbatim>\<open>logger\<close> has no effect on any result and is left out.
\<close>

record world =
  clock :: "nat \<Rightarrow> nat"
  reads :: nat
  randomDigits :: "nat \<Rightarrow> nat list"
  draws :: nat
  signer :: "command \<Rightarrow> nat \<Rightarrow> thrown + jsstring"
  s3head :: "ObjectInput \<Rightarrow> thrown + HeadObjectOutput"
  s3delete :: "ObjectInput \<Rightarrow> thrown + unit"
  s3list :: "ListObjectsV2Input \<Rightarrow> thrown + ListObjectsV2Output"
  calls :: "s3call list"

definition Date_now :: "world \<Rightarrow> nat \<times> world" where
  "Date_now w = (clock w (reads w), w\<lparr>reads := reads w + 1\<rparr>)"

definition Math_random :: "world \<Rightarrow> nat list \<times> world" where
  "Math_random w = (randomDigits w (draws w), w\<lparr>draws := draws w + 1\<rparr>)"

definition getSignedUrl :: "command \<Rightarrow> nat \<Rightarrow> world \<Rightarrow> (thrown + jsstring) \<times> world" where
  "getSignedUrl c expiresIn w =
     (signer w c expiresIn, w\<lparr>calls := calls w @ [GetSignedUrl c expiresIn]\<rparr>)"

definition sendHead :: "ObjectInput \<Rightarrow> world \<Rightarrow> (thrown + HeadObjectOutput) \<times> world" where
  "sendHead i w = (s3head w i, w\<lparr>calls := calls w @ [Send (HeadObjectCommand i)]\<rparr>)"

definition sendDelete :: "ObjectInput \<Rightarrow> world \<Rightarrow> (thrown + unit) \<times> world" where
  "sendDelete i w = (s3delete w i, w\<lparr>calls := calls w @ [Send (DeleteObjectCommand i)]\<rparr>)"

definition sendList :: "ListObjectsV2Input \<Rightarrow> world \<Rightarrow> (thrown + ListObjectsV2Output) \<times> world" where
  "sendList i w = (s3list w i, w\<lparr>calls := calls w @ [Send (ListObjectsV2Command i)]\<rparr>)"

section \<open>utils/id\<close>

definition generateFileId :: "world \<Rightarrow> jsstring \<times> world" where
  "generateFileId w =
     (let (now, w1) = Date_now w;
          (r, w2) = Math_random w1
      in (numberToString now @ str ''-'' @ substring (fractionToString36 r) 2 11, w2))"

section \<open>services/s3.service\<close>

text \<open>
  The S3 convention the two halves of the metadata code rely on: a request header
  \<^verbatim>\<open>x-amz-meta-NAME\<close> is user metadata, and a HEAD response lists it under \<^verbatim>\<open>NAME\<close>.
\<close>

definition metaPrefix :: jsstring where
  "metaPrefix = str ''x-amz-meta-''"

text \<open>
  What the store keeps of the headers of a PUT and lists in \<^verbatim>\<open>response.Metadata\<close>: the
  headers with that prefix, under their names without it, their values as they were sent.
  This is the store's side of the convention, not code of the repository.
\<close>

definition storedMetadata :: "(jsstring \<times> jsstring) list \<Rightarrow> (jsstring \<times> jsstring) list" where
  "storedMetadata hs =
     map (\<lambda>(n, v). (drop (length metaPrefix) n, v))
       (filter (\<lambda>(n, v). startsWith n metaPrefix) hs)"

text \<open>
  The metadata headers of the request that the SDK serializes from the input of a
  \<^verbatim>\<open>PutObjectCommand\<close>, before it is signed: one header \<^verbatim>\<open>x-amz-meta-NAME\<close> for each entry
  \<^verbatim>\<open>NAME\<close> of the member \<^verbatim>\<open>Metadata\<close>, and none when the input has no such member. The
  serializer reads the members \<^verbatim>\<open>PutObjectCommandInput\<close> declares and no other property of
  the input. This is the SDK's side of the convention, not code of the repository.
\<close>

definition metadataSent :: "PutObjectInput \<Rightarrow> (jsstring \<times> jsstring) list" where
  "metadataSent i =
     (case put_Metadata i of
        None \<Rightarrow> []
      | Some ms \<Rightarrow> map (\<lambda>(n, v). (metaPrefix @ n, v)) ms)"

text \<open>
  Lines 49 to 60 of \<^verbatim>\<open>generatePresignedUploadUrl\<close>: the metadata headers, in insertion
  order. A string field is written when it is truthy (present and not empty), \<^verbatim>\<open>tags\<close>
  when present (an array is truthy), \<^verbatim>\<open>isPublic\<close> when not undefined. The first built-in
  that throws ends the construction.
\<close>

definition metadataHeaders ::
  "platform \<Rightarrow> FileMetadata option \<Rightarrow> thrown + (jsstring \<times> jsstring) list" where
  "metadataHeaders P metadata =
     (case metadata of
        None \<Rightarrow> Inr []
      | Some m \<Rightarrow>
          (let h1 = (case userId m of
                       Some u \<Rightarrow> if u \<noteq> [] then [(str ''x-amz-meta-user-id'', u)] else []
                     | None \<Rightarrow> [])
           in case (case originalFilename m of
                      Some f \<Rightarrow>
                        if f \<noteq> [] then
                          (case encodeURIComponent P f of
                             Inl t \<Rightarrow> Inl t
                           | Inr e \<Rightarrow> Inr [(str ''x-amz-meta-original-filename'', e)])
                        else Inr []
                    | None \<Rightarrow> Inr []) of
                Inl t \<Rightarrow> Inl t
              | Inr h2 \<Rightarrow>
                  (let h3 = (case tags m of
                               Some ts \<Rightarrow> [(str ''x-amz-meta-tags'', JSON_stringify P ts)]
                             | None \<Rightarrow> []);
                       h4 = (case isPublic m of
                               Some b \<Rightarrow>
                                 [(str ''x-amz-meta-is-public'',
                                   if b then str ''true'' else str ''false'')]
                             | None \<Rightarrow> [])
                   in case (case description m of
                              Some d \<Rightarrow>
                                if d \<noteq> [] then
                                  (case encodeURIComponent P d of
                                     Inl t \<Rightarrow> Inl t
                                   | Inr e \<Rightarrow> Inr [(str ''x-amz-meta-description'', e)])
                                else Inr []
                            | None \<Rightarrow> Inr []) of
                        Inl t \<Rightarrow> Inl t
                      | Inr h5 \<Rightarrow> Inr (h1 @ h2 @ h3 @ h4 @ h5))))"

text \<open>The result \<^verbatim>\<open>{ url, expiresAt }\<close> of both signing methods.\<close>

record SignedUrl =
  url :: jsstring
  expiresAt :: nat

text \<open>
  \<^verbatim>\<open>new Date()\<close> followed by \<^verbatim>\<open>setSeconds(getSeconds() + expiresIn)\<close>: the instant
  \<open>expiresIn\<close> seconds after the reading. \<^verbatim>\<open>setSeconds\<close> computes in local time; the
  local zone is taken to keep its offset over the window (as UTC does).
\<close>

text \<open>
  \<^verbatim>\<open>generatePresignedUploadUrl\<close>. The input of the command is the object literal of lines 62
  to 69: \<^verbatim>\<open>Bucket\<close>, \<^verbatim>\<open>Key\<close>, \<^verbatim>\<open>ContentType\<close>, then \<^verbatim>\<open>...metadataHeaders\<close>, which adds each
  header as a property of the literal itself under its name \<^verbatim>\<open>x-amz-meta-...\<close>, then
  \<^verbatim>\<open>ContentLength\<close> when \<^verbatim>\<open>maxSizeBytes\<close> is truthy. No property is named \<^verbatim>\<open>Metadata\<close>.
\<close>

definition expiryDate :: "nat \<Rightarrow> world \<Rightarrow> nat \<times> world" where
  "expiryDate expiresIn w = (let (now, w1) = Date_now w in (now + 1000 * expiresIn, w1))"

definition S3Service_generatePresignedUploadUrl ::
  "config \<Rightarrow> platform \<Rightarrow> jsstring \<Rightarrow> jsstring \<Rightarrow> FileMetadata option \<Rightarrow> int option \<Rightarrow> world
     \<Rightarrow> (appError + SignedUrl) \<times> world" where
  "S3Service_generatePresignedUploadUrl cfg P key contentType metadata maxSizeBytes w =
     (let fullKey = aws_prefix cfg @ key;
          expiresIn = presign_uploadExpirySeconds cfg
      in case metadataHeaders P metadata of
           Inl t \<Rightarrow> (Inl (S3Error (str ''Failed to generate presigned upload URL'') t), w)
         | Inr hs \<Rightarrow>
             (let cmd = PutObjectCommand
                    \<lparr> put_Bucket = aws_bucketName cfg,
                      put_Key = fullKey,
                      put_ContentType = contentType,
                      put_Metadata = None,
                      put_spread = hs,
                      put_ContentLength =
                        (case maxSizeBytes of
                           Some n \<Rightarrow> if n \<noteq> 0 then Some n else None
                         | None \<Rightarrow> None) \<rparr>;
                  (r, w1) = getSignedUrl cmd expiresIn w
              in case r of
                   Inl t \<Rightarrow> (Inl (S3Error (str ''Failed to generate presigned upload URL'') t), w1)
                 | Inr u \<Rightarrow>
                     (let (e, w2) = expiryDate expiresIn w1
                      in (Inr \<lparr> url = u, expiresAt = e \<rparr>, w2))))"

definition S3Service_generatePresignedGetUrl ::
  "config \<Rightarrow> jsstring \<Rightarrow> world \<Rightarrow> (appError + SignedUrl) \<times> world" where
  "S3Service_generatePresignedGetUrl cfg key w =
     (let fullKey = aws_prefix cfg @ key;
          expiresIn = presign_getExpirySeconds cfg;
          cmd = GetObjectCommand \<lparr> Bucket = aws_bucketName cfg, Key = fullKey \<rparr>;
          (r, w1) = getSignedUrl cmd expiresIn w
      in case r of
           Inl t \<Rightarrow> (Inl (S3Error (str ''Failed to generate presigned GET URL'') t), w1)
         | Inr u \<Rightarrow>
             (let (e, w2) = expiryDate expiresIn w1
              in (Inr \<lparr> url = u, expiresAt = e \<rparr>, w2)))"

definition S3Service_deleteFile :: "config \<Rightarrow> jsstring \<Rightarrow> world \<Rightarrow> (appError + unit) \<times> world" where
  "S3Service_deleteFile cfg key w =
     (let fullKey = aws_prefix cfg @ key;
          (r, w1) = sendDelete \<lparr> Bucket = aws_bucketName cfg, Key = fullKey \<rparr> w
      in case r of
           Inl t \<Rightarrow> (Inl (S3Error (str ''Failed to delete file from S3'') t), w1)
         | Inr _ \<Rightarrow> (Inr (), w1))"

text \<open>
  Lines 160 to 171 of \<^verbatim>\<open>getFileMetadata\<close>: the metadata read back from the HEAD
  response. A header is read when its value is truthy (listed and not empty).
\<close>

definition header :: "(jsstring \<times> jsstring) list \<Rightarrow> jsstring \<Rightarrow> jsstring option" where
  "header hs name = (case map_of hs name of Some v \<Rightarrow> if v \<noteq> [] then Some v else None | None \<Rightarrow> None)"

definition extractMetadata ::
  "platform \<Rightarrow> (jsstring \<times> jsstring) list option \<Rightarrow> thrown + FileMetadata" where
  "extractMetadata P Metadata =
     (case Metadata of
        None \<Rightarrow> Inr emptyMetadata
      | Some hs \<Rightarrow>
          (let m1 = emptyMetadata\<lparr>userId := header hs (str ''user-id'')\<rparr>
           in case (case header hs (str ''original-filename'') of
                      Some v \<Rightarrow>
                        (case decodeURIComponent P v of
                           Inl t \<Rightarrow> Inl t
                         | Inr f \<Rightarrow> Inr (m1\<lparr>originalFilename := Some f\<rparr>))
                    | None \<Rightarrow> Inr m1) of
                Inl t \<Rightarrow> Inl t
              | Inr m2 \<Rightarrow>
                  (case (case header hs (str ''tags'') of
                           Some v \<Rightarrow>
                             (case JSON_parse P v of
                                Inl t \<Rightarrow> Inl t
                              | Inr ts \<Rightarrow> Inr (m2\<lparr>tags := Some ts\<rparr>))
                         | None \<Rightarrow> Inr m2) of
                     Inl t \<Rightarrow> Inl t
                   | Inr m3 \<Rightarrow>
                       (let m4 = (case header hs (str ''is-public'') of
                                    Some v \<Rightarrow> m3\<lparr>isPublic := Some (v = str ''true'')\<rparr>
                                  | None \<Rightarrow> m3)
                        in case header hs (str ''description'') of
                             Some v \<Rightarrow>
                               (case decodeURIComponent P v of
                                  Inl t \<Rightarrow> Inl t
                                | Inr d \<Rightarrow> Inr (m4\<lparr>description := Some d\<rparr>))
                           | None \<Rightarrow> Inr m4))))"

text \<open>\<^verbatim>\<open>Object.keys(metadata).length > 0\<close> for a metadata object built by \<open>extractMetadata\<close>.\<close>

definition hasKeys :: "FileMetadata \<Rightarrow> bool" where
  "hasKeys m =
     (userId m \<noteq> None \<or> originalFilename m \<noteq> None \<or> tags m \<noteq> None \<or> isPublic m \<noteq> None
      \<or> description m \<noteq> None \<or> extension m \<noteq> [])"

record FileInfo =
  exists :: bool
  info_contentType :: "jsstring option"
  info_size :: "int option"
  info_metadata :: "FileMetadata option"
  info_lastModified :: "nat option"

text \<open>The catch block of \<^verbatim>\<open>getFileMetadata\<close>: a thrown object named NotFound is an answer.\<close>

definition headFailed :: "thrown \<Rightarrow> appError + FileInfo" where
  "headFailed t =
     (if t = ErrorNamed (str ''NotFound'') then
        Inr \<lparr> exists = False, info_contentType = None, info_size = None, info_metadata = None,
              info_lastModified = None \<rparr>
      else Inl (S3Error (str ''Failed to get file metadata'') t))"

definition S3Service_getFileMetadata ::
  "config \<Rightarrow> platform \<Rightarrow> jsstring \<Rightarrow> world \<Rightarrow> (appError + FileInfo) \<times> world" where
  "S3Service_getFileMetadata cfg P key w =
     (let fullKey = aws_prefix cfg @ key;
          (r, w1) = sendHead \<lparr> Bucket = aws_bucketName cfg, Key = fullKey \<rparr> w
      in case r of
           Inl t \<Rightarrow> (headFailed t, w1)
         | Inr response \<Rightarrow>
             (case extractMetadata P (head_Metadata response) of
                Inl t \<Rightarrow> (headFailed t, w1)
              | Inr metadata \<Rightarrow>
                  (Inr \<lparr> exists = True,
                         info_contentType = head_ContentType response,
                         info_size = head_ContentLength response,
                         info_metadata = (if hasKeys metadata then Some metadata else None),
                         info_lastModified = head_LastModified response \<rparr>, w1)))"

record ListedFile =
  listed_key :: jsstring
  listed_size :: int
  listed_lastModified :: nat
  listed_contentType :: "jsstring option"

record ListedFiles =
  listed_files :: "ListedFile list"
  nextContinuationToken :: "jsstring option"
  isTruncated :: bool

text \<open>\<^verbatim>\<open>object.Key?.replace(this.prefix, '') || ''\<close>.\<close>

definition strippedKey :: "config \<Rightarrow> S3Object \<Rightarrow> jsstring" where
  "strippedKey cfg object =
     (case obj_Key object of Some k \<Rightarrow> replace k (aws_prefix cfg) [] | None \<Rightarrow> [])"

text \<open>
  The \<^verbatim>\<open>map\<close> over \<^verbatim>\<open>response.Contents\<close>: an object without \<^verbatim>\<open>LastModified\<close> gets
  \<^verbatim>\<open>new Date()\<close>, a reading of the clock.
\<close>

fun listedFiles :: "config \<Rightarrow> S3Object list \<Rightarrow> world \<Rightarrow> ListedFile list \<times> world" where
  "listedFiles cfg [] w = ([], w)"
| "listedFiles cfg (object # objects) w =
     (let (modified, w1) = (case obj_LastModified object of
                              Some d \<Rightarrow> (d, w)
                            | None \<Rightarrow> Date_now w);
          file = \<lparr> listed_key = strippedKey cfg object,
                   listed_size = (case obj_Size object of Some n \<Rightarrow> n | None \<Rightarrow> 0),
                   listed_lastModified = modified,
                   listed_contentType = None \<rparr>;
          (rest, w2) = listedFiles cfg objects w1
      in (file # rest, w2))"

definition S3Service_listFiles ::
  "config \<Rightarrow> jsstring option \<Rightarrow> int option \<Rightarrow> jsstring option \<Rightarrow> world
     \<Rightarrow> (appError + ListedFiles) \<times> world" where
  "S3Service_listFiles cfg prefix maxKeys continuationToken w =
     (let searchPrefix = (case prefix of
                            Some p \<Rightarrow> if p \<noteq> [] then aws_prefix cfg @ p else aws_prefix cfg
                          | None \<Rightarrow> aws_prefix cfg);
          (r, w1) = sendList
                      \<lparr> list_Bucket = aws_bucketName cfg,
                        list_Prefix = searchPrefix,
                        list_MaxKeys = (case maxKeys of Some n \<Rightarrow> n | None \<Rightarrow> 100),
                        list_ContinuationToken = continuationToken \<rparr> w
      in case r of
           Inl t \<Rightarrow> (Inl (S3Error (str ''Failed to list files'') t), w1)
         | Inr response \<Rightarrow>
             (let (fs, w2) = (case out_Contents response of
                                Some objects \<Rightarrow> listedFiles cfg objects w1
                              | None \<Rightarrow> ([], w1))
              in (Inr \<lparr> listed_files = fs,
                         nextContinuationToken = out_NextContinuationToken response,
                         isTruncated = (case out_IsTruncated response of
                                          Some b \<Rightarrow> b
                                        | None \<Rightarrow> False) \<rparr>, w2)))"

section \<open>services/file.service\<close>

definition validateMimeType :: "config \<Rightarrow> jsstring \<Rightarrow> appError + unit" where
  "validateMimeType cfg contentType =
     (if contentType \<notin> set (upload_allAllowedTypes cfg) then
        Inl (ValidationError
               (str ''Content type '' @ contentType @ str '' is not allowed. Allowed types: ''
                  @ join (str '', '') (upload_allAllowedTypes cfg))
               None)
      else Inr ())"

definition validateFileSize :: "config \<Rightarrow> int option \<Rightarrow> appError + unit" where
  "validateFileSize cfg sz =
     (case sz of
        None \<Rightarrow> Inr ()
      | Some n \<Rightarrow>
          if n > upload_maxFileSizeBytes cfg then
            Inl (ValidationError
                   (str ''File size '' @ intToString n
                      @ str '' bytes exceeds maximum allowed size of ''
                      @ intToString (upload_maxFileSizeBytes cfg) @ str '' bytes (''
                      @ intToString (upload_maxFileSizeMB cfg) @ str '' MB)'')
                   None)
          else Inr ())"

text \<open>The character class \<^verbatim>\<open>[a-zA-Z0-9._-]\<close>, and the replacement of every other code unit.\<close>

definition safeChar :: "unit16 \<Rightarrow> bool" where
  "safeChar u =
     ((0x61 \<le> u \<and> u \<le> 0x7A) \<or> (0x41 \<le> u \<and> u \<le> 0x5A) \<or> (0x30 \<le> u \<and> u \<le> 0x39)
      \<or> u = 0x2E \<or> u = 0x5F \<or> u = 0x2D)"

definition sanitize :: "jsstring \<Rightarrow> jsstring" where
  "sanitize filename = map (\<lambda>u. if safeChar u then u else 0x5F) filename"

text \<open>\<^verbatim>\<open>fileId || generateFileId()\<close>: the generator runs only when no truthy id is given.\<close>

definition generateSafeKey :: "jsstring \<Rightarrow> jsstring option \<Rightarrow> world \<Rightarrow> jsstring \<times> world" where
  "generateSafeKey filename fileId w =
     (let sanitized = sanitize filename;
          (timestamp, w1) = Date_now w;
          (ident, w2) = (case fileId of
                           Some i \<Rightarrow> if i \<noteq> [] then (i, w1) else generateFileId w1
                         | None \<Rightarrow> generateFileId w1)
      in (numberToString timestamp @ str ''-'' @ ident @ str ''-'' @ sanitized, w2))"

definition FileService_generatePresignedUploadUrl ::
  "config \<Rightarrow> platform \<Rightarrow> PresignUploadRequest \<Rightarrow> world
     \<Rightarrow> (appError + PresignUploadResponse) \<times> world" where
  "FileService_generatePresignedUploadUrl cfg P request w =
     (case validateMimeType cfg (req_contentType request) of
        Inl e \<Rightarrow> (Inl e, w)
      | Inr _ \<Rightarrow>
          (case validateFileSize cfg (req_size request) of
             Inl e \<Rightarrow> (Inl e, w)
           | Inr _ \<Rightarrow>
               (let (fileId, w1) = generateFileId w;
                    (key, w2) = generateSafeKey (req_filename request) (Some fileId) w1;
                    metadata = (case req_metadata request of
                                  Some m \<Rightarrow> m
                                | None \<Rightarrow> emptyMetadata)
                               \<lparr>originalFilename := Some (req_filename request)\<rparr>;
                    (r, w3) = S3Service_generatePresignedUploadUrl cfg P key
                                (req_contentType request) (Some metadata) (req_size request) w2
                in case r of
                     Inl e \<Rightarrow> (Inl e, w3)
                   | Inr presigned \<Rightarrow>
                       (Inr \<lparr> uploadUrl = url presigned,
                              uploadMethod = PUT,
                              up_key = key,
                              up_expiresAt = ToISOString (expiresAt presigned),
                              up_fileId = Some fileId \<rparr>, w3))))"

definition notFound :: "jsstring \<Rightarrow> appError" where
  "notFound key = NotFoundError (str ''File with key '' @ key @ str '' not found'')"

definition FileService_generatePresignedGetUrl ::
  "config \<Rightarrow> platform \<Rightarrow> jsstring \<Rightarrow> world \<Rightarrow> (appError + PresignGetResponse) \<times> world" where
  "FileService_generatePresignedGetUrl cfg P key w =
     (let (m, w1) = S3Service_getFileMetadata cfg P key w
      in case m of
           Inl e \<Rightarrow> (Inl e, w1)
         | Inr metadata \<Rightarrow>
             if \<not> exists metadata then (Inl (notFound key), w1)
             else
               (let (r, w2) = S3Service_generatePresignedGetUrl cfg key w1
                in case r of
                     Inl e \<Rightarrow> (Inl e, w2)
                   | Inr presigned \<Rightarrow>
                       (Inr \<lparr> get_url = url presigned,
                              get_expiresAt = ToISOString (expiresAt presigned) \<rparr>, w2)))"

text \<open>
  The filename of a listed key: \<^verbatim>\<open>file.key.split('-').slice(2).join('-')\<close>, which the source
  comments ``Extract original filename from key''.
\<close>

definition filenameOfKey :: "jsstring \<Rightarrow> jsstring" where
  "filenameOfKey key = join (str ''-'') (slice 2 (split 0x2D key))"

definition fileRecord :: "ListedFile \<Rightarrow> FileRecord" where
  "fileRecord file =
     \<lparr> file_key = listed_key file,
       file_filename = filenameOfKey (listed_key file),
       file_contentType = (case listed_contentType file of
                             Some c \<Rightarrow> if c \<noteq> [] then c else str ''application/octet-stream''
                           | None \<Rightarrow> str ''application/octet-stream''),
       file_size = listed_size file,
       file_uploadedAt = ToISOString (listed_lastModified file) \<rparr>"

text \<open>
  \<^verbatim>\<open>listFiles\<close>. The block \<^verbatim>\<open>if (query.tags) { const tagList = ... }\<close> computes a local
  value that nothing reads (the source calls it a placeholder), and \<^verbatim>\<open>query.userId\<close> is
  not read at all.
\<close>

definition FileService_listFiles ::
  "config \<Rightarrow> ListFilesQuery \<Rightarrow> world \<Rightarrow> (appError + ListFilesResponse) \<times> world" where
  "FileService_listFiles cfg query w =
     (let page = max 1 (case q_page query of Some n \<Rightarrow> if n \<noteq> 0 then n else 1 | None \<Rightarrow> 1);
          limit = min 100 (max 1 (case q_limit query of
                                    Some n \<Rightarrow> if n \<noteq> 0 then n else 20
                                  | None \<Rightarrow> 20));
          prefix = (case q_prefix query of Some p \<Rightarrow> if p \<noteq> [] then p else [] | None \<Rightarrow> []);
          (r, w1) = S3Service_listFiles cfg (Some prefix) (Some limit) None w
      in case r of
           Inl e \<Rightarrow> (Inl e, w1)
         | Inr result \<Rightarrow>
             (let files = map fileRecord (listed_files result)
              in (Inr \<lparr> files = files,
                         pagination = \<lparr> page = page,
                                        limit = limit,
                                        total = int (length files),
                                        hasMore = isTruncated result \<rparr> \<rparr>, w1)))"

definition FileService_deleteFile ::
  "config \<Rightarrow> platform \<Rightarrow> jsstring \<Rightarrow> world \<Rightarrow> (appError + unit) \<times> world" where
  "FileService_deleteFile cfg P key w =
     (let (m, w1) = S3Service_getFileMetadata cfg P key w
      in case m of
           Inl e \<Rightarrow> (Inl e, w1)
         | Inr metadata \<Rightarrow>
             if \<not> exists metadata then (Inl (notFound key), w1)
             else S3Service_deleteFile cfg key w1)"

definition handleUploadComplete ::
  "config \<Rightarrow> platform \<Rightarrow> UploadCompleteRequest \<Rightarrow> world
     \<Rightarrow> (appError + UploadCompleteResult) \<times> world" where
  "handleUploadComplete cfg P request w =
     (let (m, w1) = S3Service_getFileMetadata cfg P (complete_key request) w
      in case m of
           Inl e \<Rightarrow> (Inl e, w1)
         | Inr metadata \<Rightarrow>
             if \<not> exists metadata then (Inl (notFound (complete_key request)), w1)
             else
               (Inr \<lparr> success = True,
                      message = str ''Upload completed successfully'',
                      result_key = complete_key request \<rparr>, w1))"

section \<open>The route GET /files\<close>






section \<open>A platform instance\<close>

text \<open>
  The built-ins as ECMA-262 defines them, on code units. \<^verbatim>\<open>encodeURIComponent\<close> keeps the
  unreserved characters, writes every other code point as the percent-escaped octets of its
  UTF-8 encoding, and throws URIError at an unpaired surrogate.
\<close>

definition isHighSurrogate :: "unit16 \<Rightarrow> bool" where
  "isHighSurrogate u = (0xD800 \<le> u \<and> u \<le> 0xDBFF)"

definition isLowSurrogate :: "unit16 \<Rightarrow> bool" where
  "isLowSurrogate u = (0xDC00 \<le> u \<and> u \<le> 0xDFFF)"

definition alphaNumeric :: "unit16 \<Rightarrow> bool" where
  "alphaNumeric u =
     ((0x61 \<le> u \<and> u \<le> 0x7A) \<or> (0x41 \<le> u \<and> u \<le> 0x5A) \<or> (0x30 \<le> u \<and> u \<le> 0x39))"

text \<open>The marks \<^verbatim>\<open>- _ . ! ~ * ' ( )\<close>.\<close>

definition uriUnreserved :: "unit16 \<Rightarrow> bool" where
  "uriUnreserved u =
     (alphaNumeric u \<or> u \<in> set [0x2D, 0x5F, 0x2E, 0x21, 0x7E, 0x2A, 0x27, 0x28, 0x29])"

definition codePoint :: "unit16 \<Rightarrow> unit16 \<Rightarrow> nat" where
  "codePoint hi lo = 0x10000 + (unat hi - 0xD800) * 0x400 + (unat lo - 0xDC00)"

text \<open>A string without unpaired surrogates.\<close>

fun wellFormed :: "jsstring \<Rightarrow> bool" where
  "wellFormed [] = True"
| "wellFormed [u] = (\<not> isHighSurrogate u \<and> \<not> isLowSurrogate u)"
| "wellFormed (u # l # us) =
     (if isHighSurrogate u then isLowSurrogate l \<and> wellFormed us
      else \<not> isLowSurrogate u \<and> wellFormed (l # us))"

definition utf8 :: "nat \<Rightarrow> nat list" where
  "utf8 cp =
     (if cp < 0x80 then [cp]
      else if cp < 0x800 then [0xC0 + cp div 64, 0x80 + cp mod 64]
      else if cp < 0x10000 then [0xE0 + cp div 4096, 0x80 + cp div 64 mod 64, 0x80 + cp mod 64]
      else [0xF0 + cp div 262144, 0x80 + cp div 4096 mod 64, 0x80 + cp div 64 mod 64,
            0x80 + cp mod 64])"

definition hexDigit :: "nat \<Rightarrow> unit16" where
  "hexDigit d = str ''0123456789ABCDEF'' ! d"

definition percentEscape :: "nat \<Rightarrow> jsstring" where
  "percentEscape octet = [0x25, hexDigit (octet div 16), hexDigit (octet mod 16)]"

definition URIError :: thrown where
  "URIError = ErrorNamed (str ''URIError'')"

definition consR :: "'a list \<Rightarrow> 'e + 'a list \<Rightarrow> 'e + 'a list" where
  "consR xs r = (case r of Inl t \<Rightarrow> Inl t | Inr ys \<Rightarrow> Inr (xs @ ys))"

fun uriEncode :: "jsstring \<Rightarrow> thrown + jsstring" where
  "uriEncode [] = Inr []"
| "uriEncode [u] =
     (if uriUnreserved u then Inr [u]
      else if isHighSurrogate u \<or> isLowSurrogate u then Inl URIError
      else Inr (concat (map percentEscape (utf8 (unat u)))))"
| "uriEncode (u # l # us) =
     (if uriUnreserved u then consR [u] (uriEncode (l # us))
      else if isHighSurrogate u then
        (if isLowSurrogate l
         then consR (concat (map percentEscape (utf8 (codePoint u l)))) (uriEncode us)
         else Inl URIError)
      else if isLowSurrogate u then Inl URIError
      else consR (concat (map percentEscape (utf8 (unat u)))) (uriEncode (l # us)))"

text \<open>
  \<^verbatim>\<open>decodeURIComponent\<close>: the text is cut into literal code units and escaped octets, then
  every octet sequence must be the UTF-8 encoding of one code point (shortest form, no
  surrogate, at most 0x10FFFF); anything else throws URIError.
\<close>

definition hexValue :: "unit16 \<Rightarrow> nat option" where
  "hexValue u =
     (if 0x30 \<le> u \<and> u \<le> 0x39 then Some (unat u - 0x30)
      else if 0x41 \<le> u \<and> u \<le> 0x46 then Some (unat u - 0x41 + 10)
      else if 0x61 \<le> u \<and> u \<le> 0x66 then Some (unat u - 0x61 + 10)
      else None)"

datatype uriToken = Literal unit16 | Octet nat

fun uriTokens :: "jsstring \<Rightarrow> uriToken list option" where
  "uriTokens [] = Some []"
| "uriTokens (c # cs) =
     (if c \<noteq> 0x25 then map_option (Cons (Literal c)) (uriTokens cs)
      else (case cs of
              h1 # h2 # rest \<Rightarrow>
                (case (hexValue h1, hexValue h2) of
                   (Some a, Some b) \<Rightarrow> map_option (Cons (Octet (16 * a + b))) (uriTokens rest)
                 | _ \<Rightarrow> None)
            | _ \<Rightarrow> None))"

definition continuation :: "nat \<Rightarrow> bool" where
  "continuation b = (0x80 \<le> b \<and> b < 0xC0)"

definition utf16 :: "nat \<Rightarrow> jsstring" where
  "utf16 cp =
     (if cp < 0x10000 then [of_nat cp]
      else [of_nat (0xD800 + (cp - 0x10000) div 0x400), of_nat (0xDC00 + (cp - 0x10000) mod 0x400)])"

fun uriAssemble :: "uriToken list \<Rightarrow> thrown + jsstring" where
  "uriAssemble [] = Inr []"
| "uriAssemble (Literal c # ts) = consR [c] (uriAssemble ts)"
| "uriAssemble (Octet b # ts) =
     (if b < 0x80 then consR [of_nat b] (uriAssemble ts)
      else if 0xC0 \<le> b \<and> b < 0xE0 then
        (case ts of
           Octet b2 # ts' \<Rightarrow>
             (let cp = (b - 0xC0) * 64 + (b2 - 0x80)
              in if continuation b2 \<and> 0x80 \<le> cp then consR (utf16 cp) (uriAssemble ts')
                 else Inl URIError)
         | _ \<Rightarrow> Inl URIError)
      else if 0xE0 \<le> b \<and> b < 0xF0 then
        (case ts of
           Octet b2 # Octet b3 # ts' \<Rightarrow>
             (let cp = (b - 0xE0) * 4096 + (b2 - 0x80) * 64 + (b3 - 0x80)
              in if continuation b2 \<and> continuation b3 \<and> 0x800 \<le> cp
                    \<and> \<not> (0xD800 \<le> cp \<and> cp \<le> 0xDFFF)
                 then consR (utf16 cp) (uriAssemble ts')
                 else Inl URIError)
         | _ \<Rightarrow> Inl URIError)
      else if 0xF0 \<le> b \<and> b < 0xF8 then
        (case ts of
           Octet b2 # Octet b3 # Octet b4 # ts' \<Rightarrow>
             (let cp = (b - 0xF0) * 262144 + (b2 - 0x80) * 4096 + (b3 - 0x80) * 64 + (b4 - 0x80)
              in if continuation b2 \<and> continuation b3 \<and> continuation b4 \<and> 0x10000 \<le> cp
                    \<and> cp \<le> 0x10FFFF
                 then consR (utf16 cp) (uriAssemble ts')
                 else Inl URIError)
         | _ \<Rightarrow> Inl URIError)
      else Inl URIError)"

definition uriDecode :: "jsstring \<Rightarrow> thrown + jsstring" where
  "uriDecode s = (case uriTokens s of None \<Rightarrow> Inl URIError | Some ts \<Rightarrow> uriAssemble ts)"

text \<open>
  \<^verbatim>\<open>JSON.stringify\<close> of an array of strings: the quoted strings between brackets, separated
  by commas. A quoted string escapes the quotation mark, the backslash, the control
  characters and every unpaired surrogate.
\<close>

definition lowerHexDigit :: "nat \<Rightarrow> unit16" where
  "lowerHexDigit d = str ''0123456789abcdef'' ! d"

definition unicodeEscape :: "unit16 \<Rightarrow> jsstring" where
  "unicodeEscape u =
     [0x5C, 0x75, lowerHexDigit (unat u div 4096), lowerHexDigit (unat u div 256 mod 16),
      lowerHexDigit (unat u div 16 mod 16), lowerHexDigit (unat u mod 16)]"

definition quoteUnit :: "unit16 \<Rightarrow> jsstring" where
  "quoteUnit u =
     (if u = 0x08 then [0x5C, 0x62]
      else if u = 0x09 then [0x5C, 0x74]
      else if u = 0x0A then [0x5C, 0x6E]
      else if u = 0x0C then [0x5C, 0x66]
      else if u = 0x0D then [0x5C, 0x72]
      else if u = 0x22 then [0x5C, 0x22]
      else if u = 0x5C then [0x5C, 0x5C]
      else if u < 0x20 \<or> isHighSurrogate u \<or> isLowSurrogate u then unicodeEscape u
      else [u])"

fun quoteChars :: "jsstring \<Rightarrow> jsstring" where
  "quoteChars [] = []"
| "quoteChars [u] = quoteUnit u"
| "quoteChars (u # l # us) =
     (if isHighSurrogate u \<and> isLowSurrogate l then u # l # quoteChars us
      else quoteUnit u @ quoteChars (l # us))"

definition quoteJSONString :: "jsstring \<Rightarrow> jsstring" where
  "quoteJSONString s = [0x22] @ quoteChars s @ [0x22]"

definition stringifyStrings :: "jsstring list \<Rightarrow> jsstring" where
  "stringifyStrings ts = str ''['' @ join (str '','') (map quoteJSONString ts) @ str '']''"

text \<open>
  \<^verbatim>\<open>JSON.parse\<close> on the texts that denote an array of strings, read by a scanner: white
  space between the tokens, the escapes of the JSON grammar inside a string, no raw
  control character. On any other text this instance answers SyntaxError, also on a JSON
  text of another shape (a number, an object), which \<^verbatim>\<open>JSON.parse\<close> reads: the instance is
  for the texts that \<^verbatim>\<open>JSON.stringify\<close> writes for an array of strings.
\<close>

datatype scanState =
    Start | Opened | InString jsstring | AfterString | AfterComma | Closed

definition jsonWhitespace :: "unit16 \<Rightarrow> bool" where
  "jsonWhitespace u = (u = 0x20 \<or> u = 0x09 \<or> u = 0x0A \<or> u = 0x0D)"

definition unescape :: "unit16 \<Rightarrow> unit16 option" where
  "unescape e =
     (if e = 0x22 then Some 0x22
      else if e = 0x5C then Some 0x5C
      else if e = 0x2F then Some 0x2F
      else if e = 0x62 then Some 0x08
      else if e = 0x66 then Some 0x0C
      else if e = 0x6E then Some 0x0A
      else if e = 0x72 then Some 0x0D
      else if e = 0x74 then Some 0x09
      else None)"

definition hex4 :: "unit16 \<Rightarrow> unit16 \<Rightarrow> unit16 \<Rightarrow> unit16 \<Rightarrow> unit16 option" where
  "hex4 a b c d =
     (case (hexValue a, hexValue b, hexValue c, hexValue d) of
        (Some x, Some y, Some z, Some v) \<Rightarrow> Some (of_nat (4096 * x + 256 * y + 16 * z + v))
      | _ \<Rightarrow> None)"

fun scanStrings :: "scanState \<Rightarrow> jsstring list \<Rightarrow> jsstring \<Rightarrow> jsstring list option" where
  "scanStrings st acc [] = (if st = Closed then Some acc else None)"
| "scanStrings (InString cur) acc (c # cs) =
     (if c = 0x22 then scanStrings AfterString (acc @ [cur]) cs
      else if c = 0x5C then
        (case cs of
           [] \<Rightarrow> None
         | e # cs' \<Rightarrow>
             if e = 0x75 then
               (case cs' of
                  h1 # h2 # h3 # h4 # cs'' \<Rightarrow>
                    (case hex4 h1 h2 h3 h4 of
                       Some u \<Rightarrow> scanStrings (InString (cur @ [u])) acc cs''
                     | None \<Rightarrow> None)
                | _ \<Rightarrow> None)
             else
               (case unescape e of
                  Some u \<Rightarrow> scanStrings (InString (cur @ [u])) acc cs'
                | None \<Rightarrow> None))
      else if c < 0x20 then None
      else scanStrings (InString (cur @ [c])) acc cs)"
| "scanStrings st acc (c # cs) =
     (if jsonWhitespace c then scanStrings st acc cs
      else if st = Start \<and> c = 0x5B then scanStrings Opened acc cs
      else if (st = Opened \<or> st = AfterComma) \<and> c = 0x22 then scanStrings (InString []) acc cs
      else if (st = Opened \<or> st = AfterString) \<and> c = 0x5D then scanStrings Closed acc cs
      else if st = AfterString \<and> c = 0x2C then scanStrings AfterComma acc cs
      else None)"

definition parseStrings :: "jsstring \<Rightarrow> thrown + jsstring list" where
  "parseStrings text =
     (case scanStrings Start [] text of
        Some ts \<Rightarrow> Inr ts
      | None \<Rightarrow> Inl (ErrorNamed (str ''SyntaxError'')))"

definition ecma :: platform where
  "ecma =
     \<lparr> encodeURIComponent = uriEncode,
       decodeURIComponent = uriDecode,
       JSON_stringify = stringifyStrings,
       JSON_parse = parseStrings \<rparr>"

section \<open>Example values\<close>

text \<open>A configuration, a world and requests on which the closed theorems are evaluated.\<close>

definition exampleEnv :: env where
  "exampleEnv =
     \<lparr> S3_BUCKET_NAME = str ''test-bucket'',
       S3_PREFIX = str ''uploads'',
       PRESIGN_EXPIRY_SECONDS = 900,
       PRESIGN_GET_EXPIRY_SECONDS = 3600,
       MAX_FILE_SIZE_MB = 100,
       ALLOWED_IMAGE_TYPES = [str ''image/jpeg'', str ''image/png''],
       ALLOWED_VIDEO_TYPES = [str ''video/mp4''],
       ALLOWED_DOCUMENT_TYPES = [str ''application/pdf''],
       ALLOWED_AUDIO_TYPES = [str ''audio/mpeg''] \<rparr>"

text \<open>
  The clock stands still, the random generator repeats itself, the signer answers, and the
  store holds no object.
\<close>

definition exampleWorld :: world where
  "exampleWorld =
     \<lparr> clock = (\<lambda>k. 1700000000000),
       reads = 0,
       randomDigits = (\<lambda>k. [10, 11, 12, 1, 2, 3, 33, 34, 35, 7, 7]),
       draws = 0,
       signer = (\<lambda>c e. Inr (str ''https://signed'')),
       s3head = (\<lambda>i. Inl (ErrorNamed (str ''NotFound''))),
       s3delete = (\<lambda>i. Inr ()),
       s3list = (\<lambda>i. Inr \<lparr> out_Contents = None, out_NextContinuationToken = None,
                              out_IsTruncated = None \<rparr>),
       calls = [] \<rparr>"

definition exampleRequest :: "jsstring \<Rightarrow> int option \<Rightarrow> PresignUploadRequest" where
  "exampleRequest contentType sz =
     \<lparr> req_filename = str ''test.jpg'', req_contentType = contentType, req_size = sz,
       req_metadata = None \<rparr>"

text \<open>A store that lists one object, uploaded under a key the service generated.\<close>

definition listingObject :: S3Object where
  "listingObject =
     \<lparr> obj_Key = Some (str ''uploads/1700000000000-1700000000000-abc123xyz-test.jpg''),
       obj_Size = Some 1024,
       obj_LastModified = Some 1700000005000 \<rparr>"

definition listingOutput :: ListObjectsV2Output where
  "listingOutput =
     \<lparr> out_Contents = Some [listingObject], out_NextContinuationToken = None,
       out_IsTruncated = Some False \<rparr>"

definition listingWorld :: world where
  "listingWorld = exampleWorld \<lparr> s3list := (\<lambda>i. Inr listingOutput) \<rparr>"

text \<open>
  A world whose random numbers all differ, but only from their tenth base-36 digit on.
\<close>

definition collidingWorld :: world where
  "collidingWorld =
     exampleWorld \<lparr> randomDigits := (\<lambda>k. [10, 11, 12, 1, 2, 3, 33, 34, 35, k mod 36]) \<rparr>"

text \<open>A world whose random generator gives a new number at every draw.\<close>

definition freshWorld :: world where
  "freshWorld = exampleWorld \<lparr> randomDigits := (\<lambda>k. [k mod 36, 1, 2]) \<rparr>"

text \<open>
  A metadata record with every named field and one extra key; the filename is
  \<^verbatim>\<open>e-acute, t, e-acute, space, U+1F600, .jpg\<close>.
\<close>

definition exampleMetadata :: FileMetadata where
  "exampleMetadata =
     \<lparr> userId = Some (str ''user123''),
       originalFilename = Some ([0xE9, 0x74, 0xE9, 0x20, 0xD83D, 0xDE00] @ str ''.jpg''),
       tags = Some [str ''photo'', str ''profile''],
       isPublic = Some True,
       description = Some (str ''a b''),
       extension = [(str ''album'', JSNumber 7)] \<rparr>"


definition exampleQuery :: "int option \<Rightarrow> int option \<Rightarrow> ListFilesQuery" where
  "exampleQuery p l =
     \<lparr> q_userId = None, q_tags = None, q_page = p, q_limit = l, q_prefix = None \<rparr>"

section \<open>The validator\<close>

text \<open>
  C7. A request whose size exceeds \<^verbatim>\<open>maxFileSizeBytes\<close> is refused by the issue-upload flow
  with a ValidationError, and the world is left as it was; \<open>validateFileSize\<close> itself fails
  with ValidationError above the ceiling and passes for an absent size and for every size
  up to the ceiling.
\<close>

theorem validateFileSize_ceiling:
  "(\<forall>n. req_size r = Some n \<and> n > upload_maxFileSizeBytes cfg \<longrightarrow>
      (\<exists>msg. FileService_generatePresignedUploadUrl cfg P r w
               = (Inl (ValidationError msg None), w)))
   \<and> (\<forall>n. n > upload_maxFileSizeBytes cfg \<longrightarrow>
         (\<exists>msg. validateFileSize cfg (Some n) = Inl (ValidationError msg None)))
   \<and> (\<forall>n. n \<le> upload_maxFileSizeBytes cfg \<longrightarrow> validateFileSize cfg (Some n) = Inr ())
   \<and> validateFileSize cfg None = Inr ()"
  by (auto simp: FileService_generatePresignedUploadUrl_def validateFileSize_def
      validateMimeType_def split: sum.splits)

theorem validateFileSize_ceiling_witness:
  "upload_maxFileSizeBytes (mkConfig exampleEnv) < 209715200
   \<and> (\<exists>msg. FileService_generatePresignedUploadUrl (mkConfig exampleEnv) ecma
               (exampleRequest (str ''image/jpeg'') (Some 209715200)) exampleWorld
             = (Inl (ValidationError msg None), exampleWorld))
   \<and> 1024 \<le> upload_maxFileSizeBytes (mkConfig exampleEnv)
   \<and> validateFileSize (mkConfig exampleEnv) (Some 1024) = Inr ()"
  using validateFileSize_ceiling [of "exampleRequest (str ''image/jpeg'') (Some 209715200)"
      "mkConfig exampleEnv" ecma exampleWorld]
  by (simp add: exampleRequest_def mkConfig_def exampleEnv_def)

text \<open>
  C5. A request whose content type is in none of the four configured lists (images,
  videos, documents, audio) is refused by the issue-upload flow with a ValidationError, and
  the world is returned unchanged: no call reached the SDK, and neither the clock nor the
  random generator was read.
\<close>

theorem disallowed_contentType_rejected:
  assumes "req_contentType r \<notin> set (ALLOWED_IMAGE_TYPES e) \<union> set (ALLOWED_VIDEO_TYPES e)
             \<union> set (ALLOWED_DOCUMENT_TYPES e) \<union> set (ALLOWED_AUDIO_TYPES e)"
  shows "\<exists>msg. FileService_generatePresignedUploadUrl (mkConfig e) P r w
           = (Inl (ValidationError msg None), w)"
  using assms
  by (simp add: FileService_generatePresignedUploadUrl_def validateMimeType_def mkConfig_def)

theorem disallowed_contentType_rejected_witness:
  "str ''application/x-msdownload'' \<notin> set (upload_allAllowedTypes (mkConfig exampleEnv))
   \<and> (\<exists>msg. FileService_generatePresignedUploadUrl (mkConfig exampleEnv) ecma
               (exampleRequest (str ''application/x-msdownload'') None) exampleWorld
             = (Inl (ValidationError msg None), exampleWorld))"
  using disallowed_contentType_rejected
    [of "exampleRequest (str ''application/x-msdownload'') None" exampleEnv ecma exampleWorld]
  by (simp add: exampleRequest_def mkConfig_def exampleEnv_def str_def)

section \<open>Facts about strings\<close>

lemma dash_eq: "str ''-'' = [0x2D]"
  by (simp add: str_def)

lemma digits36_distinct: "distinct (str ''0123456789abcdefghijklmnopqrstuvwxyz'')"
  by (simp add: str_def)

lemma digits36_length: "length (str ''0123456789abcdefghijklmnopqrstuvwxyz'') = 36"
  by (simp add: str_def)

lemma digits36_safe:
  "\<forall>c \<in> set (str ''0123456789abcdefghijklmnopqrstuvwxyz''). safeChar c \<and> c \<noteq> 0x2D"
  by (simp add: str_def safeChar_def)

lemma digitChar_safe: "d < 36 \<Longrightarrow> safeChar (digitChar d)"
  using digits36_safe nth_mem [of d "str ''0123456789abcdefghijklmnopqrstuvwxyz''"]
  by (simp add: digitChar_def digits36_length)

lemma digitChar_not_dash: "d < 36 \<Longrightarrow> digitChar d \<noteq> 0x2D"
  using digits36_safe nth_mem [of d "str ''0123456789abcdefghijklmnopqrstuvwxyz''"]
  by (simp add: digitChar_def digits36_length)

lemma digitChar_inj: "a < 36 \<Longrightarrow> b < 36 \<Longrightarrow> digitChar a = digitChar b \<Longrightarrow> a = b"
  using nth_eq_iff_index_eq [OF digits36_distinct, of a b]
  by (simp add: digitChar_def digits36_length)

text \<open>The decimal digits of a number: never empty, no dash, safe characters, injective.\<close>

lemma numberToString_digits: "set (numberToString n) \<subseteq> digitChar ` {0..<10}"
proof (induction n rule: numberToString.induct)
  case (1 n)
  show ?case
  proof (cases "n < 10")
    case True
    then show ?thesis by (simp add: numberToString.simps [of n])
  next
    case False
    then have "set (numberToString (n div 10)) \<subseteq> digitChar ` {0..<10}"
      using 1 by simp
    moreover have "digitChar (n mod 10) \<in> digitChar ` {0..<10}"
      by simp
    ultimately show ?thesis
      using False by (simp add: numberToString.simps [of n])
  qed
qed

lemma numberToString_safe: "list_all safeChar (numberToString n)"
  using numberToString_digits [of n] digitChar_safe by (fastforce simp: list_all_iff)

lemma numberToString_no_dash: "0x2D \<notin> set (numberToString n)"
  using numberToString_digits [of n] digitChar_not_dash by fastforce

lemma numberToString_not_empty: "numberToString n \<noteq> []"
  by (simp add: numberToString.simps [of n])

lemma numberToString_inj: "numberToString a = numberToString b \<Longrightarrow> a = b"
proof (induction a arbitrary: b rule: numberToString.induct)
  case (1 a)
  show ?case
  proof (cases "a < 10")
    case True
    show ?thesis
    proof (cases "b < 10")
      case True
      with \<open>a < 10\<close> 1(2) show ?thesis
        using digitChar_inj [of a b]
        by (simp add: numberToString.simps [of a] numberToString.simps [of b])
    next
      case False
      with \<open>a < 10\<close> 1(2) show ?thesis
        using numberToString_not_empty [of "b div 10"]
        by (simp add: numberToString.simps [of a] numberToString.simps [of b])
    qed
  next
    case False
    show ?thesis
    proof (cases "b < 10")
      case True
      with False 1(2) show ?thesis
        using numberToString_not_empty [of "a div 10"]
        by (simp add: numberToString.simps [of a] numberToString.simps [of b])
    next
      case b: False
      from False b 1(2) have e: "numberToString (a div 10) = numberToString (b div 10)"
        and d: "digitChar (a mod 10) = digitChar (b mod 10)"
        by (simp_all add: numberToString.simps [of a] numberToString.simps [of b])
      from 1(1) [OF False e] have "a div 10 = b div 10" .
      moreover from d have "a mod 10 = b mod 10"
        using digitChar_inj [of "a mod 10" "b mod 10"] by simp
      ultimately show ?thesis
        by (metis div_mult_mod_eq)
    qed
  qed
qed

lemma numberToString_example: "numberToString 1700000000000 = str ''1700000000000''"
  by (simp add: numberToString.simps digitChar_def str_def)

text \<open>The nine characters \<^verbatim>\<open>generateFileId\<close> keeps of the random number.\<close>

lemma random_suffix: "substring (fractionToString36 ds) 2 11 = map digitChar (take 9 ds)"
  by (cases "ds = []") (simp_all add: substring_def fractionToString36_def str_def take_map)

lemma suffix_safe:
  assumes "\<forall>d \<in> set ds. d < 36"
  shows "list_all safeChar (map digitChar (take 9 ds))"
    and "0x2D \<notin> set (map digitChar (take 9 ds))"
  using assms digitChar_safe digitChar_not_dash
  by (auto simp: list_all_iff dest!: in_set_takeD)

lemma sanitize_safe: "list_all safeChar (sanitize f)"
  by (induction f) (simp_all add: sanitize_def safeChar_def)

lemma safe_no_separator: "list_all safeChar k \<Longrightarrow> 0x2F \<notin> set k \<and> 0x5C \<notin> set k"
  by (auto simp: list_all_iff safeChar_def)

text \<open>\<^verbatim>\<open>split\<close> and \<^verbatim>\<open>join\<close> on the same separator, and \<^verbatim>\<open>replace\<close> of a leading prefix.\<close>

lemma split_not_empty: "split c s \<noteq> []"
  by (induction s) (simp_all add: Let_def)

lemma join_cons:
  assumes "t \<noteq> []"
  shows "join sep ((c # hd t) # tl t) = c # join sep t"
proof (cases t)
  case Nil
  with assms show ?thesis by simp
next
  case (Cons h r)
  then show ?thesis by (cases r) simp_all
qed

lemma join_front: "t \<noteq> [] \<Longrightarrow> join sep (p # t) = p @ sep @ join sep t"
  by (cases t) simp_all

lemma join_split: "join [c] (split c s) = s"
proof (induction s)
  case Nil
  then show ?case by simp
next
  case (Cons a s)
  show ?case
  proof (cases "a = c")
    case True
    obtain h t where "split c s = h # t"
      using split_not_empty [of c s] by (cases "split c s") auto
    with Cons True show ?thesis by simp
  next
    case False
    with Cons show ?thesis by (simp add: Let_def join_cons split_not_empty)
  qed
qed

lemma split_segment: "c \<notin> set a \<Longrightarrow> split c (a @ c # b) = a # split c b"
  by (induction a) (auto simp: Let_def)

lemma replace_own_prefix: "replace (p @ k) p [] = k"
proof (cases "p @ k")
  case Nil
  then show ?thesis by simp
next
  case (Cons a l)
  have s: "startsWith (a # l) p"
    unfolding Cons [symmetric] startsWith_def by simp
  have d: "drop (length p) (a # l) = k"
    unfolding Cons [symmetric] by simp
  show ?thesis
    using s d by (simp add: Cons)
qed

lemma separated_inj:
  "c \<notin> set a \<Longrightarrow> c \<notin> set a' \<Longrightarrow> a @ c # b = a' @ c # b' \<Longrightarrow> a = a' \<and> b = b'"
proof (induction a arbitrary: a')
  case Nil
  then show ?case by (cases a') auto
next
  case (Cons x a)
  then show ?case by (cases a') auto
qed

lemma longer_differs: "c @ x # f \<noteq> f"
proof
  assume "c @ x # f = f"
  then have "length (c @ x # f) = length f"
    by simp
  then show False
    by simp
qed

section \<open>Facts about the generated keys\<close>

lemma generateFileId_eq:
  "generateFileId w =
     (numberToString (clock w (reads w)) @ str ''-''
        @ map digitChar (take 9 (randomDigits w (draws w))),
      w\<lparr>reads := reads w + 1, draws := draws w + 1\<rparr>)"
  by (simp add: generateFileId_def Date_now_def Math_random_def random_suffix)

lemma generateSafeKey_generated:
  "generateSafeKey filename None w =
     (numberToString (clock w (reads w)) @ str ''-''
        @ (numberToString (clock w (reads w + 1)) @ str ''-''
             @ map digitChar (take 9 (randomDigits w (draws w))))
        @ str ''-'' @ sanitize filename,
      w\<lparr>reads := reads w + 2, draws := draws w + 1\<rparr>)"
  by (simp add: generateSafeKey_def Date_now_def generateFileId_eq)

lemma generateSafeKey_given:
  "i \<noteq> [] \<Longrightarrow> generateSafeKey filename (Some i) w =
     (numberToString (clock w (reads w)) @ str ''-'' @ i @ str ''-'' @ sanitize filename,
      w\<lparr>reads := reads w + 1\<rparr>)"
  by (simp add: generateSafeKey_def Date_now_def)

text \<open>The key of a successful issue-upload call, from the readings of the world.\<close>

lemma upload_key:
  assumes "FileService_generatePresignedUploadUrl cfg P r w = (Inr resp, w')"
  shows "up_key resp =
           numberToString (clock w (reads w + 1)) @ str ''-''
             @ (numberToString (clock w (reads w)) @ str ''-''
                  @ map digitChar (take 9 (randomDigits w (draws w))))
             @ str ''-'' @ sanitize (req_filename r)"
proof -
  have ne: "numberToString (clock w (reads w)) @ str ''-''
              @ map digitChar (take 9 (randomDigits w (draws w))) \<noteq> []"
    using numberToString_not_empty by simp
  show ?thesis
    using assms
    by (auto simp: FileService_generatePresignedUploadUrl_def generateFileId_eq
        generateSafeKey_given [OF ne] Let_def split: sum.splits prod.splits)
qed

lemma key_safe:
  assumes "\<forall>d \<in> set ds. d < 36"
  shows "list_all safeChar
           (numberToString a @ str ''-'' @ (numberToString b @ str ''-'' @ map digitChar (take 9 ds))
              @ str ''-'' @ sanitize f)"
  using suffix_safe(1) [OF assms] numberToString_safe sanitize_safe
  by (simp add: dash_eq safeChar_def)

lemma recovered:
  assumes "0x2D \<notin> set a" and "0x2D \<notin> set b" and "0x2D \<notin> set c"
  shows "filenameOfKey (a @ str ''-'' @ (b @ str ''-'' @ c) @ str ''-'' @ f) = c @ str ''-'' @ f"
  using assms
  by (simp add: filenameOfKey_def slice_def dash_eq split_segment join_split
      join_front [OF split_not_empty])


section \<open>Facts about the listing\<close>

lemma listedFiles_keys:
  "listedFiles cfg objects w = (fs, w') \<Longrightarrow> map listed_key fs = map (strippedKey cfg) objects"
  by (induction objects arbitrary: w fs w')
    (auto simp: Let_def split: prod.splits option.splits)

lemma S3Service_listFiles_keys:
  assumes "s3list v = (\<lambda>i. Inr out)"
  shows "\<exists>res v'.
           S3Service_listFiles cfg pre lim tok v = (Inr res, v')
           \<and> map listed_key (listed_files res)
               = map (strippedKey cfg) (case out_Contents out of Some os \<Rightarrow> os | None \<Rightarrow> [])"
proof (cases "out_Contents out")
  case None
  then show ?thesis
    by (simp add: S3Service_listFiles_def sendList_def assms)
next
  case (Some os)
  define v1 where "v1 = snd (sendList
      \<lparr> list_Bucket = aws_bucketName cfg,
        list_Prefix = (case pre of
                         Some p \<Rightarrow> if p \<noteq> [] then aws_prefix cfg @ p else aws_prefix cfg
                       | None \<Rightarrow> aws_prefix cfg),
        list_MaxKeys = (case lim of Some n \<Rightarrow> n | None \<Rightarrow> 100),
        list_ContinuationToken = tok \<rparr> v)"
  obtain fs w2 where l: "listedFiles cfg os v1 = (fs, w2)"
    by (cases "listedFiles cfg os v1") auto
  have "S3Service_listFiles cfg pre lim tok v
          = (Inr \<lparr> listed_files = fs,
                   nextContinuationToken = out_NextContinuationToken out,
                   isTruncated = (case out_IsTruncated out of Some b \<Rightarrow> b | None \<Rightarrow> False) \<rparr>, w2)"
    using l Some unfolding v1_def
    by (simp add: S3Service_listFiles_def sendList_def assms)
  then show ?thesis
    using listedFiles_keys [OF l] Some by simp
qed

lemma listFiles_keys:
  assumes "s3list v = (\<lambda>i. Inr out)"
  shows "\<exists>listing v'.
           FileService_listFiles cfg q v = (Inr listing, v')
           \<and> map file_key (files listing)
               = map (strippedKey cfg) (case out_Contents out of Some os \<Rightarrow> os | None \<Rightarrow> [])
           \<and> map file_filename (files listing) = map filenameOfKey (map file_key (files listing))"
proof -
  obtain res v' where s: "S3Service_listFiles cfg
      (Some (case q_prefix q of Some p \<Rightarrow> if p \<noteq> [] then p else [] | None \<Rightarrow> []))
      (Some (min 100 (max 1 (case q_limit q of Some n \<Rightarrow> if n \<noteq> 0 then n else 20 | None \<Rightarrow> 20))))
      None v = (Inr res, v')"
    and k: "map listed_key (listed_files res)
              = map (strippedKey cfg) (case out_Contents out of Some os \<Rightarrow> os | None \<Rightarrow> [])"
    using S3Service_listFiles_keys [OF assms] by blast
  show ?thesis
    using s k
    by (simp add: FileService_listFiles_def Let_def fileRecord_def comp_def)
qed


section \<open>Evaluations of the examples\<close>

lemma exampleConfig:
  "mkConfig exampleEnv =
     \<lparr> aws_bucketName = str ''test-bucket'', aws_prefix = str ''uploads/'',
       presign_uploadExpirySeconds = 900, presign_getExpirySeconds = 3600,
       upload_maxFileSizeBytes = 104857600, upload_maxFileSizeMB = 100,
       upload_allAllowedTypes = [str ''image/jpeg'', str ''image/png'', str ''video/mp4'',
                                 str ''application/pdf'', str ''audio/mpeg''] \<rparr>"
  by (simp add: mkConfig_def exampleEnv_def endsWith_def str_def)

lemma uriEncode_example: "uriEncode (str ''test.jpg'') = Inr (str ''test.jpg'')"
  by (simp add: uriUnreserved_def alphaNumeric_def consR_def str_def)

lemma upload_example:
  "FileService_generatePresignedUploadUrl (mkConfig exampleEnv) ecma
     (exampleRequest (str ''image/jpeg'') (Some 1024)) exampleWorld
   = (Inr \<lparr> uploadUrl = str ''https://signed'', uploadMethod = PUT,
            up_key = str ''1700000000000-1700000000000-abc123xyz-test.jpg'',
            up_expiresAt = ToISOString 1700000900000,
            up_fileId = Some (str ''1700000000000-abc123xyz'') \<rparr>,
      exampleWorld
        \<lparr> reads := 3, draws := 1,
          calls := [GetSignedUrl
                      (PutObjectCommand
                         \<lparr> put_Bucket = str ''test-bucket'',
                           put_Key = str ''uploads/1700000000000-1700000000000-abc123xyz-test.jpg'',
                           put_ContentType = str ''image/jpeg'',
                           put_Metadata = None,
                           put_spread = [(str ''x-amz-meta-original-filename'', str ''test.jpg'')],
                           put_ContentLength = Some 1024 \<rparr>)
                      900] \<rparr>)"
  apply (simp add: exampleConfig)
  apply (simp add: FileService_generatePresignedUploadUrl_def validateMimeType_def
      validateFileSize_def generateFileId_eq generateSafeKey_def Date_now_def
      S3Service_generatePresignedUploadUrl_def metadataHeaders_def getSignedUrl_def
      expiryDate_def emptyMetadata_def ecma_def uriEncode_example exampleRequest_def
      exampleWorld_def numberToString_example digitChar_def)
  apply (simp add: sanitize_def safeChar_def str_def)
  done

lemma listing_example:
  assumes "q_prefix q = None"
  shows "FileService_listFiles (mkConfig exampleEnv) q listingWorld
   = (Inr \<lparr> files = [\<lparr> file_key = str ''1700000000000-1700000000000-abc123xyz-test.jpg'',
                        file_filename = str ''abc123xyz-test.jpg'',
                        file_contentType = str ''application/octet-stream'',
                        file_size = 1024,
                        file_uploadedAt = ToISOString 1700000005000 \<rparr>],
            pagination =
              \<lparr> page = max 1 (case q_page q of Some n \<Rightarrow> if n \<noteq> 0 then n else 1 | None \<Rightarrow> 1),
                limit = min 100 (max 1 (case q_limit q of
                                          Some n \<Rightarrow> if n \<noteq> 0 then n else 20
                                        | None \<Rightarrow> 20)),
                total = 1, hasMore = False \<rparr> \<rparr>,
      listingWorld
        \<lparr> calls := [Send (ListObjectsV2Command
                            \<lparr> list_Bucket = str ''test-bucket'', list_Prefix = str ''uploads/'',
                              list_MaxKeys =
                                min 100 (max 1 (case q_limit q of
                                                  Some n \<Rightarrow> if n \<noteq> 0 then n else 20
                                                | None \<Rightarrow> 20)),
                              list_ContinuationToken = None \<rparr>)] \<rparr>)"
  apply (simp add: exampleConfig)
  apply (simp add: FileService_listFiles_def S3Service_listFiles_def sendList_def listingWorld_def
      listingOutput_def listingObject_def exampleWorld_def assms strippedKey_def
      fileRecord_def filenameOfKey_def slice_def startsWith_def str_def Let_def)
  done


section \<open>Absent keys\<close>

text \<open>
  C4. When the existence check of a key answers \<open>exists = False\<close>, the retrieve, delete and
  complete flows each fail with the NotFoundError of that key, whose status is 404, and the
  only call that reached the SDK is the HEAD of the existence check: nothing was signed and
  nothing was deleted.
\<close>

theorem absent_key_not_found:
  assumes "S3Service_getFileMetadata cfg P key w = (Inr info, w1)" and "\<not> exists info"
  shows "FileService_generatePresignedGetUrl cfg P key w
           = (Inl (NotFoundError (str ''File with key '' @ key @ str '' not found'')), w1)
         \<and> FileService_deleteFile cfg P key w
           = (Inl (NotFoundError (str ''File with key '' @ key @ str '' not found'')), w1)
         \<and> handleUploadComplete cfg P \<lparr> complete_key = key, complete_metadata = md \<rparr> w
           = (Inl (NotFoundError (str ''File with key '' @ key @ str '' not found'')), w1)
         \<and> statusCode (NotFoundError (str ''File with key '' @ key @ str '' not found'')) = 404
         \<and> calls w1
           = calls w @ [Send (HeadObjectCommand
                                \<lparr> Bucket = aws_bucketName cfg, Key = aws_prefix cfg @ key \<rparr>)]"
proof -
  have c: "calls w1
             = calls w @ [Send (HeadObjectCommand
                                  \<lparr> Bucket = aws_bucketName cfg, Key = aws_prefix cfg @ key \<rparr>)]"
    using assms(1)
    by (auto simp: S3Service_getFileMetadata_def sendHead_def Let_def split: sum.splits)
  show ?thesis
    using assms c
    by (simp add: FileService_generatePresignedGetUrl_def FileService_deleteFile_def
        handleUploadComplete_def notFound_def)
qed

theorem absent_key_not_found_witness:
  "FileService_generatePresignedGetUrl (mkConfig exampleEnv) ecma (str ''missing'') exampleWorld
     = (Inl (NotFoundError (str ''File with key missing not found'')),
        exampleWorld
          \<lparr>calls := [Send (HeadObjectCommand
                             \<lparr> Bucket = str ''test-bucket'', Key = str ''uploads/missing'' \<rparr>)]\<rparr>)
   \<and> FileService_deleteFile (mkConfig exampleEnv) ecma (str ''missing'') exampleWorld
     = (Inl (NotFoundError (str ''File with key missing not found'')),
        exampleWorld
          \<lparr>calls := [Send (HeadObjectCommand
                             \<lparr> Bucket = str ''test-bucket'', Key = str ''uploads/missing'' \<rparr>)]\<rparr>)
   \<and> handleUploadComplete (mkConfig exampleEnv) ecma
        \<lparr> complete_key = str ''missing'', complete_metadata = None \<rparr> exampleWorld
     = (Inl (NotFoundError (str ''File with key missing not found'')),
        exampleWorld
          \<lparr>calls := [Send (HeadObjectCommand
                             \<lparr> Bucket = str ''test-bucket'', Key = str ''uploads/missing'' \<rparr>)]\<rparr>)"
proof -
  have h: "S3Service_getFileMetadata (mkConfig exampleEnv) ecma (str ''missing'') exampleWorld
      = (Inr \<lparr> exists = False, info_contentType = None, info_size = None,
               info_metadata = None, info_lastModified = None \<rparr>,
         exampleWorld
           \<lparr>calls := [Send (HeadObjectCommand
                              \<lparr> Bucket = str ''test-bucket'', Key = str ''uploads/missing'' \<rparr>)]\<rparr>)"
    by (simp add: S3Service_getFileMetadata_def sendHead_def headFailed_def exampleWorld_def
        exampleConfig str_def)
  show ?thesis
    using absent_key_not_found [OF h, of None] by (simp add: str_def)
qed

section \<open>Listing\<close>

text \<open>
  C10. Two list queries that agree on \<^verbatim>\<open>prefix\<close> and \<^verbatim>\<open>limit\<close> leave the same world behind
  (the same call was sent to the store) and either fail with the same error or return the
  same files, the same total, the same hasMore and the same limit: \<^verbatim>\<open>page\<close>, \<^verbatim>\<open>userId\<close> and
  \<^verbatim>\<open>tags\<close> reach nothing but the echoed page number.
\<close>

theorem listFiles_ignores_page_userId_tags:
  assumes "q_prefix q1 = q_prefix q2" and "q_limit q1 = q_limit q2"
  shows "snd (FileService_listFiles cfg q1 w) = snd (FileService_listFiles cfg q2 w)
         \<and> (case (fst (FileService_listFiles cfg q1 w), fst (FileService_listFiles cfg q2 w)) of
               (Inr r1, Inr r2) \<Rightarrow>
                 files r1 = files r2 \<and> total (pagination r1) = total (pagination r2)
                 \<and> hasMore (pagination r1) = hasMore (pagination r2)
                 \<and> limit (pagination r1) = limit (pagination r2)
             | (Inl e1, Inl e2) \<Rightarrow> e1 = e2
             | _ \<Rightarrow> False)"
  using assms
  by (simp add: FileService_listFiles_def Let_def split: prod.splits sum.splits)

theorem listFiles_ignores_page_userId_tags_witness:
  "snd (FileService_listFiles (mkConfig exampleEnv)
          ((exampleQuery (Some 7) (Some 10))
             \<lparr>q_userId := Some (str ''alice''), q_tags := Some (str ''photo,profile'')\<rparr>)
          listingWorld)
     = snd (FileService_listFiles (mkConfig exampleEnv) (exampleQuery None (Some 10)) listingWorld)
   \<and> (\<exists>r1 r2.
         fst (FileService_listFiles (mkConfig exampleEnv)
                ((exampleQuery (Some 7) (Some 10))
                   \<lparr>q_userId := Some (str ''alice''), q_tags := Some (str ''photo,profile'')\<rparr>)
                listingWorld) = Inr r1
         \<and> fst (FileService_listFiles (mkConfig exampleEnv) (exampleQuery None (Some 10))
                  listingWorld) = Inr r2
         \<and> files r1 = files r2 \<and> length (files r1) = 1
         \<and> page (pagination r1) = 7 \<and> page (pagination r2) = 1)"
proof -
  have a: "q_prefix ((exampleQuery (Some 7) (Some 10))
             \<lparr>q_userId := Some (str ''alice''), q_tags := Some (str ''photo,profile'')\<rparr>)
           = q_prefix (exampleQuery None (Some 10))"
    and b: "q_limit ((exampleQuery (Some 7) (Some 10))
             \<lparr>q_userId := Some (str ''alice''), q_tags := Some (str ''photo,profile'')\<rparr>)
           = q_limit (exampleQuery None (Some 10))"
    by (simp_all add: exampleQuery_def)
  show ?thesis
    using listFiles_ignores_page_userId_tags [OF a b, of "mkConfig exampleEnv" listingWorld]
    by (simp add: listing_example exampleQuery_def)
qed




section \<open>Signed requests\<close>

text \<open>
  C3. Whenever the metadata headers can be built, \<open>S3Service_generatePresignedUploadUrl\<close>
  hands the signer exactly one request, with the upload expiry \<^verbatim>\<open>PRESIGN_EXPIRY_SECONDS\<close>: a
  PutObjectCommand whose input has the configured bucket, the key behind the configured
  prefix, the content type, and a ContentLength equal to the maximum size when one is
  supplied (a maximum of 0, which is falsy, adds none). The encoded metadata headers are
  in that input too, but as properties spread under their own names and not under the
  member \<^verbatim>\<open>Metadata\<close>: the input has no such member, so the request that is signed carries
  no metadata header, whatever the metadata. \<open>S3Service_generatePresignedGetUrl\<close> hands the
  signer a GetObjectCommand with the bucket and the prefixed key, with the expiry
  \<^verbatim>\<open>PRESIGN_GET_EXPIRY_SECONDS\<close>, a separate variable.
\<close>

theorem signed_request_carries_no_metadata:
  assumes "metadataHeaders P metadata = Inr hs"
  shows "(\<exists>i. calls (snd (S3Service_generatePresignedUploadUrl (mkConfig e) P key contentType
                             metadata maxSizeBytes w))
                = calls w @ [GetSignedUrl (PutObjectCommand i) (PRESIGN_EXPIRY_SECONDS e)]
              \<and> put_Bucket i = S3_BUCKET_NAME e
              \<and> put_Key i = aws_prefix (mkConfig e) @ key
              \<and> put_ContentType i = contentType
              \<and> put_ContentLength i
                  = (case maxSizeBytes of
                       Some n \<Rightarrow> if n = 0 then None else Some n
                     | None \<Rightarrow> None)
              \<and> put_spread i = hs
              \<and> put_Metadata i = None
              \<and> metadataSent i = [])
         \<and> calls (snd (S3Service_generatePresignedGetUrl (mkConfig e) key w))
             = calls w @
               [GetSignedUrl
                  (GetObjectCommand
                     \<lparr> Bucket = S3_BUCKET_NAME e, Key = aws_prefix (mkConfig e) @ key \<rparr>)
                  (PRESIGN_GET_EXPIRY_SECONDS e)]"
proof -
  have cfg: "aws_bucketName (mkConfig e) = S3_BUCKET_NAME e"
    "presign_uploadExpirySeconds (mkConfig e) = PRESIGN_EXPIRY_SECONDS e"
    "presign_getExpirySeconds (mkConfig e) = PRESIGN_GET_EXPIRY_SECONDS e"
    by (simp_all add: mkConfig_def)
  have put: "\<exists>i. calls (snd (S3Service_generatePresignedUploadUrl (mkConfig e) P key contentType
                             metadata maxSizeBytes w))
                = calls w @ [GetSignedUrl (PutObjectCommand i) (PRESIGN_EXPIRY_SECONDS e)]
              \<and> put_Bucket i = S3_BUCKET_NAME e
              \<and> put_Key i = aws_prefix (mkConfig e) @ key
              \<and> put_ContentType i = contentType
              \<and> put_ContentLength i
                  = (case maxSizeBytes of
                       Some n \<Rightarrow> if n = 0 then None else Some n
                     | None \<Rightarrow> None)
              \<and> put_spread i = hs
              \<and> put_Metadata i = None
              \<and> metadataSent i = []"
    using assms
    by (auto simp: S3Service_generatePresignedUploadUrl_def cfg getSignedUrl_def expiryDate_def
        Date_now_def metadataSent_def Let_def
        split: sum.splits prod.splits option.splits)
  have get: "calls (snd (S3Service_generatePresignedGetUrl (mkConfig e) key w))
             = calls w @
               [GetSignedUrl
                  (GetObjectCommand
                     \<lparr> Bucket = S3_BUCKET_NAME e, Key = aws_prefix (mkConfig e) @ key \<rparr>)
                  (PRESIGN_GET_EXPIRY_SECONDS e)]"
    by (auto simp: S3Service_generatePresignedGetUrl_def cfg getSignedUrl_def expiryDate_def
        Date_now_def Let_def split: sum.splits prod.splits)
  from put get show ?thesis by (rule conjI)
qed

text \<open>
  The call that the issue-upload flow makes for the request \<^verbatim>\<open>test.jpg\<close>, \<^verbatim>\<open>image/jpeg\<close>, 1024
  bytes, with the metadata \<^verbatim>\<open>{ userId: "user123" }\<close>: two metadata headers are built and
  spread, and none is on the request.
\<close>

theorem signed_request_carries_no_metadata_witness:
  "metadataHeaders ecma
     (Some (emptyMetadata\<lparr>userId := Some (str ''user123''),
                           originalFilename := Some (str ''test.jpg'')\<rparr>))
     = Inr [(str ''x-amz-meta-user-id'', str ''user123''),
            (str ''x-amz-meta-original-filename'', str ''test.jpg'')]
   \<and> (\<exists>i. calls (snd (S3Service_generatePresignedUploadUrl (mkConfig exampleEnv) ecma
                          (str ''1700000000000-1700000000000-abc123xyz-test.jpg'')
                          (str ''image/jpeg'')
                          (Some (emptyMetadata\<lparr>userId := Some (str ''user123''),
                                                originalFilename := Some (str ''test.jpg'')\<rparr>))
                          (Some 1024) exampleWorld))
             = [GetSignedUrl (PutObjectCommand i) 900]
           \<and> put_Bucket i = str ''test-bucket''
           \<and> put_Key i = str ''uploads/1700000000000-1700000000000-abc123xyz-test.jpg''
           \<and> put_ContentType i = str ''image/jpeg''
           \<and> put_ContentLength i = Some 1024
           \<and> put_spread i = [(str ''x-amz-meta-user-id'', str ''user123''),
                              (str ''x-amz-meta-original-filename'', str ''test.jpg'')]
           \<and> put_Metadata i = None
           \<and> metadataSent i = [])
   \<and> calls (snd (S3Service_generatePresignedGetUrl (mkConfig exampleEnv)
                    (str ''1700000000000-1700000000000-abc123xyz-test.jpg'') exampleWorld))
       = [GetSignedUrl
            (GetObjectCommand
               \<lparr> Bucket = str ''test-bucket'',
                 Key = str ''uploads/1700000000000-1700000000000-abc123xyz-test.jpg'' \<rparr>)
            3600]"
proof -
  have h: "metadataHeaders ecma
     (Some (emptyMetadata\<lparr>userId := Some (str ''user123''),
                           originalFilename := Some (str ''test.jpg'')\<rparr>))
     = Inr [(str ''x-amz-meta-user-id'', str ''user123''),
            (str ''x-amz-meta-original-filename'', str ''test.jpg'')]"
    by (simp add: metadataHeaders_def emptyMetadata_def ecma_def uriEncode_example)
      (simp add: str_def)
  have c: "aws_prefix (mkConfig exampleEnv) = str ''uploads/''"
    "S3_BUCKET_NAME exampleEnv = str ''test-bucket''"
    "PRESIGN_EXPIRY_SECONDS exampleEnv = 900"
    "PRESIGN_GET_EXPIRY_SECONDS exampleEnv = 3600"
    "calls exampleWorld = []"
    by (simp_all add: exampleConfig) (simp_all add: exampleEnv_def exampleWorld_def)
  have k: "str ''uploads/'' @ str ''1700000000000-1700000000000-abc123xyz-test.jpg''
             = str ''uploads/1700000000000-1700000000000-abc123xyz-test.jpg''"
    by (simp add: str_def)
  show ?thesis
    using signed_request_carries_no_metadata [OF h, of exampleEnv
        "str ''1700000000000-1700000000000-abc123xyz-test.jpg''" "str ''image/jpeg''"
        "Some 1024" exampleWorld]
    by (simp add: h c k)
qed

section \<open>Generated keys\<close>

text \<open>
  C9. Whatever the filename, every character of a key that \<open>generateSafeKey\<close> builds with a
  generated id is in \<^verbatim>\<open>[a-zA-Z0-9._-]\<close>; the key contains neither a slash nor a backslash,
  hence no \<^verbatim>\<open>../\<close>. The same holds for the key of every successful issue-upload call. The
  hypothesis says that the digits of the random number are base-36 digits.
\<close>

theorem safe_key_characters:
  assumes "\<forall>d \<in> set (randomDigits w (draws w)). d < 36"
  shows "list_all safeChar (fst (generateSafeKey filename None w))
         \<and> 0x2F \<notin> set (fst (generateSafeKey filename None w))
         \<and> 0x5C \<notin> set (fst (generateSafeKey filename None w))
         \<and> (\<forall>a b. fst (generateSafeKey filename None w) \<noteq> a @ str ''../'' @ b)
         \<and> (\<forall>resp w'. FileService_generatePresignedUploadUrl cfg P r w = (Inr resp, w') \<longrightarrow>
               list_all safeChar (up_key resp) \<and> 0x2F \<notin> set (up_key resp)
               \<and> 0x5C \<notin> set (up_key resp) \<and> (\<forall>a b. up_key resp \<noteq> a @ str ''../'' @ b))"
proof -
  have esc: "\<And>k a b. 0x2F \<notin> set k \<Longrightarrow> k \<noteq> a @ str ''../'' @ b"
    by (auto simp: str_def)
  have k1: "list_all safeChar (fst (generateSafeKey filename None w))"
    using key_safe [OF assms] by (simp add: generateSafeKey_generated)
  have k2: "list_all safeChar (up_key resp)"
    if "FileService_generatePresignedUploadUrl cfg P r w = (Inr resp, w')" for resp w'
    using key_safe [OF assms] upload_key [OF that] by simp
  show ?thesis
    using k1 k2 safe_no_separator esc by blast
qed

theorem safe_key_characters_witness:
  "list_all safeChar (fst (generateSafeKey (str ''my file/../x-y.txt'') None exampleWorld))
   \<and> fst (generateSafeKey (str ''my file/../x-y.txt'') None exampleWorld)
       = str ''1700000000000-1700000000000-abc123xyz-my_file_.._x-y.txt''
   \<and> list_all safeChar (str ''1700000000000-1700000000000-abc123xyz-test.jpg'')"
proof -
  have d: "\<forall>d \<in> set (randomDigits exampleWorld (draws exampleWorld)). d < 36"
    by (simp add: exampleWorld_def)
  have k: "fst (generateSafeKey (str ''my file/../x-y.txt'') None exampleWorld)
       = str ''1700000000000-1700000000000-abc123xyz-my_file_.._x-y.txt''"
    apply (simp add: generateSafeKey_generated exampleWorld_def numberToString_example
        digitChar_def)
    apply (simp add: sanitize_def safeChar_def str_def)
    done
  show ?thesis
    using safe_key_characters [OF d, of "str ''my file/../x-y.txt''" "mkConfig exampleEnv" ecma
        "exampleRequest (str ''image/jpeg'') (Some 1024)"] k upload_example
    by simp
qed

text \<open>
  C1 fails on the code. The id that \<open>generateFileId\<close> returns is itself
  \<^verbatim>\<open>{timestamp}-{random}\<close>, so a generated key has four segments before the filename, and
  dropping two of them leaves the random part in front: for the key of a successful
  issue-upload call, stored under the configured prefix and listed back, \<^verbatim>\<open>listFiles\<close>
  reports the filename \<^verbatim>\<open>{random}-{sanitized}\<close>, never the sanitized filename.
\<close>

theorem listed_filename_keeps_random_suffix:
  assumes "FileService_generatePresignedUploadUrl cfg P r w = (Inr resp, w')"
    and "\<forall>d \<in> set (randomDigits w (draws w)). d < 36"
    and "s3list v = (\<lambda>i. Inr out)"
    and "out_Contents out = Some [object]"
    and "obj_Key object = Some (aws_prefix cfg @ up_key resp)"
  shows "\<exists>listing v'.
           FileService_listFiles cfg q v = (Inr listing, v')
           \<and> map file_key (files listing) = [up_key resp]
           \<and> map file_filename (files listing)
               = [map digitChar (take 9 (randomDigits w (draws w))) @ str ''-''
                    @ sanitize (req_filename r)]
           \<and> map file_filename (files listing) \<noteq> [sanitize (req_filename r)]"
proof -
  have k: "filenameOfKey (up_key resp)
             = map digitChar (take 9 (randomDigits w (draws w))) @ str ''-''
                 @ sanitize (req_filename r)"
    unfolding upload_key [OF assms(1)]
    by (rule recovered) (use numberToString_no_dash suffix_safe(2) [OF assms(2)] in auto)
  have d: "filenameOfKey (up_key resp) \<noteq> sanitize (req_filename r)"
    unfolding k by (simp add: dash_eq longer_differs)
  from listFiles_keys [OF assms(3), of cfg q] obtain listing v'
    where l: "FileService_listFiles cfg q v = (Inr listing, v')"
      and ks: "map file_key (files listing) = [up_key resp]"
      and fs: "map file_filename (files listing)
                 = map filenameOfKey (map file_key (files listing))"
    by (auto simp: assms(4,5) strippedKey_def replace_own_prefix)
  show ?thesis
    using l ks fs k d by simp
qed

theorem listed_filename_keeps_random_suffix_witness:
  "\<exists>listing v'.
     FileService_listFiles (mkConfig exampleEnv) (exampleQuery None None) listingWorld
       = (Inr listing, v')
     \<and> map file_key (files listing) = [str ''1700000000000-1700000000000-abc123xyz-test.jpg'']
     \<and> map file_filename (files listing) = [str ''abc123xyz-test.jpg'']
     \<and> map file_filename (files listing) \<noteq> [sanitize (str ''test.jpg'')]"
proof -
  have s: "sanitize (str ''test.jpg'') = str ''test.jpg''"
    by (simp add: sanitize_def safeChar_def str_def)
  have l: "s3list listingWorld = (\<lambda>i. Inr listingOutput)"
    by (simp add: listingWorld_def)
  have c: "out_Contents listingOutput = Some [listingObject]"
    by (simp add: listingOutput_def)
  have o: "obj_Key listingObject
             = Some (aws_prefix (mkConfig exampleEnv)
                 @ up_key \<lparr> uploadUrl = str ''https://signed'', uploadMethod = PUT,
                            up_key = str ''1700000000000-1700000000000-abc123xyz-test.jpg'',
                            up_expiresAt = ToISOString 1700000900000,
                            up_fileId = Some (str ''1700000000000-abc123xyz'') \<rparr>)"
    by (simp add: listingObject_def exampleConfig str_def)
  have d: "\<forall>d \<in> set (randomDigits exampleWorld (draws exampleWorld)). d < 36"
    by (simp add: exampleWorld_def)
  show ?thesis
    using listed_filename_keeps_random_suffix [OF upload_example d l c o,
        of "exampleQuery None None"] s
    by (simp add: exampleWorld_def exampleRequest_def exampleQuery_def digitChar_def str_def)
qed

text \<open>
  C8, as amended. Two successive \<open>generateSafeKey\<close> calls on the same filename, without an
  id, return the same key exactly when both timestamp readings of the second call repeat
  those of the first and the two random numbers agree on their first nine base-36 digits;
  otherwise the keys differ. Nothing but the clock and the random generator separates them.
\<close>

theorem successive_keys_equal_iff:
  assumes "\<forall>d \<in> set (randomDigits w (draws w)). d < 36"
    and "\<forall>d \<in> set (randomDigits w (draws w + 1)). d < 36"
  shows "fst (generateSafeKey f None w)
           = fst (generateSafeKey f None (snd (generateSafeKey f None w)))
         \<longleftrightarrow> clock w (reads w) = clock w (reads w + 2)
             \<and> clock w (reads w + 1) = clock w (reads w + 3)
             \<and> take 9 (randomDigits w (draws w)) = take 9 (randomDigits w (draws w + 1))"
proof -
  let ?a = "numberToString (clock w (reads w))"
  let ?b = "numberToString (clock w (reads w + 1))"
  let ?c = "map digitChar (take 9 (randomDigits w (draws w)))"
  let ?a' = "numberToString (clock w (reads w + 2))"
  let ?b' = "numberToString (clock w (reads w + 3))"
  let ?c' = "map digitChar (take 9 (randomDigits w (draws w + 1)))"
  have keys: "fst (generateSafeKey f None w) = ?a @ 0x2D # ?b @ 0x2D # ?c @ 0x2D # sanitize f"
    "fst (generateSafeKey f None (snd (generateSafeKey f None w)))
       = ?a' @ 0x2D # ?b' @ 0x2D # ?c' @ 0x2D # sanitize f"
    by (simp_all add: generateSafeKey_generated dash_eq numeral_3_eq_3)
  have inj: "map digitChar (take 9 xs) = map digitChar (take 9 ys) \<longleftrightarrow> take 9 xs = take 9 ys"
    if "\<forall>d \<in> set xs. d < 36" "\<forall>d \<in> set ys. d < 36" for xs ys
  proof -
    have "inj_on digitChar (set (take 9 xs) \<union> set (take 9 ys))"
      using that digitChar_inj by (auto simp: inj_on_def dest!: in_set_takeD)
    then show ?thesis
      by (rule inj_on_map_eq_map)
  qed
  have "?a @ 0x2D # ?b @ 0x2D # ?c @ 0x2D # sanitize f
          = ?a' @ 0x2D # ?b' @ 0x2D # ?c' @ 0x2D # sanitize f
        \<longleftrightarrow> ?a = ?a' \<and> ?b = ?b' \<and> ?c = ?c'"
    using separated_inj [of "0x2D" ?a ?a' "?b @ 0x2D # ?c @ 0x2D # sanitize f"
        "?b' @ 0x2D # ?c' @ 0x2D # sanitize f"]
      separated_inj [of "0x2D" ?b ?b' "?c @ 0x2D # sanitize f" "?c' @ 0x2D # sanitize f"]
      separated_inj [of "0x2D" ?c ?c' "sanitize f" "sanitize f"]
      numberToString_no_dash suffix_safe(2) [OF assms(1)] suffix_safe(2) [OF assms(2)]
    by auto
  then show ?thesis
    unfolding keys using inj [OF assms] numberToString_inj by auto
qed

theorem successive_keys_equal_iff_witness:
  "fst (generateSafeKey (str ''test.jpg'') None freshWorld)
     \<noteq> fst (generateSafeKey (str ''test.jpg'') None
              (snd (generateSafeKey (str ''test.jpg'') None freshWorld)))"
proof -
  have a: "\<forall>d \<in> set (randomDigits freshWorld (draws freshWorld)). d < 36"
    and b: "\<forall>d \<in> set (randomDigits freshWorld (draws freshWorld + 1)). d < 36"
    by (simp_all add: freshWorld_def exampleWorld_def)
  show ?thesis
    using successive_keys_equal_iff [OF a b, of "str ''test.jpg''"]
    by (simp add: freshWorld_def exampleWorld_def)
qed

text \<open>
  C8 as stated fails: when the clock stands still and two random numbers differ only after
  their ninth base-36 digit, two successive calls return the same key.
\<close>

theorem successive_keys_collide:
  "randomDigits collidingWorld 0 \<noteq> randomDigits collidingWorld 1
   \<and> fst (generateSafeKey (str ''test.jpg'') None collidingWorld)
       = fst (generateSafeKey (str ''test.jpg'') None
                (snd (generateSafeKey (str ''test.jpg'') None collidingWorld)))"
  by (simp add: generateSafeKey_generated collidingWorld_def exampleWorld_def)



section \<open>The platform instance: percent-encoding\<close>

lemma hex_table: "\<forall>d \<in> set [0..<16]. hexValue (hexDigit d) = Some d \<and> hexValue (lowerHexDigit d) = Some d"
  by (simp add: upt_rec hexValue_def hexDigit_def lowerHexDigit_def str_def)

lemma hexValue_hexDigit: "d < 16 \<Longrightarrow> hexValue (hexDigit d) = Some d"
  using hex_table by simp

lemma hexValue_lowerHexDigit: "d < 16 \<Longrightarrow> hexValue (lowerHexDigit d) = Some d"
  using hex_table by simp

lemma tokens_percentEscape:
  assumes "b < 256"
  shows "uriTokens (percentEscape b @ rest) = map_option (Cons (Octet b)) (uriTokens rest)"
proof -
  have "b div 16 < 16" "b mod 16 < 16" using assms by simp_all
  moreover have "16 * (b div 16) + b mod 16 = b" by simp
  ultimately show ?thesis
    by (simp add: percentEscape_def hexValue_hexDigit)
qed

lemma tokens_escapes:
  "\<forall>b \<in> set bs. b < 256 \<Longrightarrow>
   uriTokens (concat (map percentEscape bs) @ rest) = map_option ((@) (map Octet bs)) (uriTokens rest)"
proof (induction bs)
  case Nil
  then show ?case by (simp add: option.map_ident)
next
  case (Cons b bs)
  then show ?case
    by (simp add: tokens_percentEscape option.map_comp comp_def)
qed

lemma utf8_octets: "cp < 0x110000 \<Longrightarrow> \<forall>b \<in> set (utf8 cp). b < 256"
  by (auto simp: utf8_def)

lemma utf8_not_empty: "utf8 cp \<noteq> []"
  by (simp add: utf8_def)

lemma digits64: "(n::nat) div 64 * (64 * k) + n mod 64 * k = n * k"
proof -
  have "n * k = (n div 64 * 64 + n mod 64) * k"
    by (simp only: div_mult_mod_eq)
  also have "\<dots> = n div 64 * (64 * k) + n mod 64 * k"
    by (simp only: add_mult_distrib mult.assoc)
  finally show ?thesis by simp
qed

lemma split3: "(cp::nat) div 4096 * 4096 + cp div 64 mod 64 * 64 + cp mod 64 = cp"
proof -
  have a: "cp div 4096 = cp div 64 div 64"
    by (simp add: div_mult2_eq)
  show ?thesis
    unfolding a using digits64 [of "cp div 64" 64] by simp
qed

lemma split4:
  "(cp::nat) div 262144 * 262144 + cp div 4096 mod 64 * 4096 + cp div 64 mod 64 * 64 + cp mod 64 = cp"
proof -
  have a: "cp div 262144 = cp div 4096 div 64"
    by (simp add: div_mult2_eq)
  show ?thesis
    unfolding a using digits64 [of "cp div 4096" 4096] split3 [of cp] by simp
qed

lemma assemble_utf8:
  assumes "cp < 0x110000" and "\<not> (0xD800 \<le> cp \<and> cp \<le> 0xDFFF)"
  shows "uriAssemble (map Octet (utf8 cp) @ ts) = consR (utf16 cp) (uriAssemble ts)"
proof -
  consider "cp < 0x80" | "0x80 \<le> cp" "cp < 0x800" | "0x800 \<le> cp" "cp < 0x10000"
    | "0x10000 \<le> cp"
    by linarith
  then show ?thesis
  proof cases
    case 1
    then show ?thesis by (simp add: utf8_def utf16_def)
  next
    case 2
    define q r where "q = cp div 64" and "r = cp mod 64"
    have u: "utf8 cp = [0xC0 + q, 0x80 + r]"
      using 2 by (simp add: utf8_def q_def r_def)
    have q: "q < 32" and r: "r < 64" and e: "q * 64 + r = cp"
      using 2 by (simp_all add: q_def r_def)
    show ?thesis
      unfolding u using q r 2 by (simp add: continuation_def e)
  next
    case 3
    define p q r where "p = cp div 4096" and "q = cp div 64 mod 64" and "r = cp mod 64"
    have u: "utf8 cp = [0xE0 + p, 0x80 + q, 0x80 + r]"
      using 3 by (simp add: utf8_def p_def q_def r_def)
    have p: "p < 16" and q: "q < 64" and r: "r < 64"
      using 3 by (simp_all add: p_def q_def r_def)
    have e: "p * 4096 + q * 64 + r = cp"
      unfolding p_def q_def r_def by (rule split3)
    show ?thesis
      unfolding u using p q r 3 assms(2) by (simp add: continuation_def e)
  next
    case 4
    define o' p q r where "o' = cp div 262144" and "p = cp div 4096 mod 64"
      and "q = cp div 64 mod 64" and "r = cp mod 64"
    have u: "utf8 cp = [0xF0 + o', 0x80 + p, 0x80 + q, 0x80 + r]"
      using 4 by (simp add: utf8_def o'_def p_def q_def r_def)
    have o: "o' < 8" and p: "p < 64" and q: "q < 64" and r: "r < 64"
      using assms(1) by (simp_all add: o'_def p_def q_def r_def)
    have e: "o' * 262144 + p * 4096 + q * 64 + r = cp"
      unfolding o'_def p_def q_def r_def by (rule split4)
    show ?thesis
      unfolding u using o p q r 4 assms(1) by (simp add: continuation_def e)
  qed
qed


lemma consR_Inr: "consR xs r = Inr e \<longleftrightarrow> (\<exists>ys. r = Inr ys \<and> e = xs @ ys)"
  by (cases r) (auto simp: consR_def)

lemma high_range: "isHighSurrogate u \<Longrightarrow> 0xD800 \<le> unat u \<and> unat u \<le> 0xDBFF"
  by (simp add: isHighSurrogate_def word_le_nat_alt)

lemma low_range: "isLowSurrogate u \<Longrightarrow> 0xDC00 \<le> unat u \<and> unat u \<le> 0xDFFF"
  by (simp add: isLowSurrogate_def word_le_nat_alt)

lemma unit_range:
  fixes u :: unit16
  shows "unat u < 0x10000"
  using unsigned_less [of u, where ?'a = nat] by simp

lemma not_surrogate_range:
  "\<not> isHighSurrogate u \<Longrightarrow> \<not> isLowSurrogate u \<Longrightarrow> \<not> (0xD800 \<le> unat u \<and> unat u \<le> 0xDFFF)"
  by (auto simp: isHighSurrogate_def isLowSurrogate_def word_le_nat_alt)

lemma utf16_unit: "utf16 (unat (u :: unit16)) = [u]"
  using unit_range [of u] by (simp add: utf16_def)

lemma codePoint_range:
  assumes "isHighSurrogate u" and "isLowSurrogate l"
  shows "0x10000 \<le> codePoint u l" and "codePoint u l < 0x110000"
  using high_range [OF assms(1)] low_range [OF assms(2)] unfolding codePoint_def by linarith+

lemma utf16_pair:
  assumes "isHighSurrogate u" and "isLowSurrogate l"
  shows "utf16 (codePoint u l) = [u, l]"
proof -
  define h k where "h = unat u - 0xD800" and "k = unat l - 0xDC00"
  have h: "h < 0x400" and k: "k < 0x400" and hu: "0xD800 + h = unat u" and kl: "0xDC00 + k = unat l"
    using high_range [OF assms(1)] low_range [OF assms(2)] unfolding h_def k_def by linarith+
  have c: "codePoint u l = 0x10000 + h * 0x400 + k"
    by (simp add: codePoint_def h_def k_def)
  have "(h * 0x400 + k) div 0x400 = h" "(h * 0x400 + k) mod 0x400 = k"
    using k by simp_all
  then show ?thesis
    unfolding c by (simp add: utf16_def hu kl)
qed

lemma unreserved_facts:
  assumes "uriUnreserved u"
  shows "u \<noteq> 0x25" and "\<not> isHighSurrogate u" and "\<not> isLowSurrogate u"
  using assms
  by (auto simp: uriUnreserved_def alphaNumeric_def isHighSurrogate_def isLowSurrogate_def
      word_le_nat_alt)

lemma tokens_point:
  assumes "cp < 0x110000" and "uriTokens e = Some ts"
  shows "uriTokens (concat (map percentEscape (utf8 cp)) @ e) = Some (map Octet (utf8 cp) @ ts)"
  using tokens_escapes [OF utf8_octets [OF assms(1)], of e] assms(2) by simp

lemma uri_round_trip_tokens:
  "uriEncode s = Inr e \<Longrightarrow> \<exists>ts. uriTokens e = Some ts \<and> uriAssemble ts = Inr s"
proof (induction s arbitrary: e rule: uriEncode.induct)
  case 1
  then show ?case by simp
next
  case (2 u)
  show ?case
  proof (cases "uriUnreserved u")
    case True
    with 2 show ?thesis
      using unreserved_facts(1) [OF True] by (auto simp: consR_def)
  next
    case False
    with 2 have n: "\<not> isHighSurrogate u" "\<not> isLowSurrogate u"
      and e: "e = concat (map percentEscape (utf8 (unat u))) @ []"
      by (auto split: if_splits)
    have t: "uriTokens e = Some (map Octet (utf8 (unat u)) @ [])"
      unfolding e by (rule tokens_point) (use unit_range [of u] in simp_all)
    have "uriAssemble (map Octet (utf8 (unat u)) @ []) = Inr [u]"
      using assemble_utf8 [OF _ not_surrogate_range [OF n], of "[]"] unit_range [of u]
      by (simp add: utf16_unit consR_def)
    with t show ?thesis by blast
  qed
next
  case (3 u l us)
  show ?case
  proof (cases "uriUnreserved u")
    case True
    with 3(4) obtain e' where e': "uriEncode (l # us) = Inr e'" and e: "e = [u] @ e'"
      by (auto simp: consR_Inr)
    from 3(1) [OF True e'] obtain ts where "uriTokens e' = Some ts" "uriAssemble ts = Inr (l # us)"
      by blast
    then show ?thesis
      unfolding e using unreserved_facts(1) [OF True] by (simp add: consR_def)
  next
    case False
    show ?thesis
    proof (cases "isHighSurrogate u")
      case True
      with False 3(4) have l: "isLowSurrogate l"
        by (auto split: if_splits)
      with False True 3(4) obtain e' where e': "uriEncode us = Inr e'"
        and e: "e = concat (map percentEscape (utf8 (codePoint u l))) @ e'"
        by (auto simp: consR_Inr)
      from 3(2) [OF False True l e'] obtain ts
        where ts: "uriTokens e' = Some ts" "uriAssemble ts = Inr us"
        by blast
      have t: "uriTokens e = Some (map Octet (utf8 (codePoint u l)) @ ts)"
        unfolding e by (rule tokens_point [OF codePoint_range(2) [OF True l] ts(1)])
      have "uriAssemble (map Octet (utf8 (codePoint u l)) @ ts) = Inr (u # l # us)"
        using assemble_utf8 [OF codePoint_range(2) [OF True l], of ts] codePoint_range(1) [OF True l]
          ts(2)
        by (simp add: utf16_pair [OF True l] consR_def)
      with t show ?thesis by blast
    next
      case h: False
      with False 3(4) have n: "\<not> isLowSurrogate u"
        by (auto split: if_splits)
      with False h 3(4) obtain e' where e': "uriEncode (l # us) = Inr e'"
        and e: "e = concat (map percentEscape (utf8 (unat u))) @ e'"
        by (auto simp: consR_Inr)
      from 3(3) [OF False h n e'] obtain ts
        where ts: "uriTokens e' = Some ts" "uriAssemble ts = Inr (l # us)"
        by blast
      have t: "uriTokens e = Some (map Octet (utf8 (unat u)) @ ts)"
        unfolding e by (rule tokens_point [OF _ ts(1)]) (use unit_range [of u] in simp)
      have "uriAssemble (map Octet (utf8 (unat u)) @ ts) = Inr (u # l # us)"
        using assemble_utf8 [OF _ not_surrogate_range [OF h n], of ts] unit_range [of u] ts(2)
        by (simp add: utf16_unit consR_def)
      with t show ?thesis by blast
    qed
  qed
qed

lemma uriDecode_uriEncode: "uriEncode s = Inr e \<Longrightarrow> uriDecode e = Inr s"
  using uri_round_trip_tokens [of s e] by (auto simp: uriDecode_def)

lemma uriEncode_wellFormed: "wellFormed s \<Longrightarrow> \<exists>e. uriEncode s = Inr e"
proof (induction s rule: wellFormed.induct)
  case 1
  then show ?case by simp
next
  case (2 u)
  then show ?case by simp
next
  case (3 u l us)
  show ?case
  proof (cases "isHighSurrogate u")
    case True
    with 3 obtain e where "uriEncode us = Inr e" and "isLowSurrogate l"
      by auto
    then show ?thesis
      using True unreserved_facts(2) [of u] by (auto simp: consR_def)
  next
    case False
    with 3 obtain e where "uriEncode (l # us) = Inr e" and "\<not> isLowSurrogate u"
      by auto
    then show ?thesis
      using False by (auto simp: consR_def)
  qed
qed

lemma escapes_not_empty: "concat (map percentEscape (utf8 cp)) \<noteq> []"
  using utf8_not_empty [of cp] by (cases "utf8 cp") (simp_all add: percentEscape_def)

lemma uriEncode_not_empty:
  assumes "uriEncode s = Inr e" and "s \<noteq> []"
  shows "e \<noteq> []"
proof (cases s rule: uriEncode.cases)
  case 1
  with assms show ?thesis by simp
next
  case (2 u)
  with assms show ?thesis
    using escapes_not_empty [of "unat u"] by (auto split: if_splits)
next
  case (3 u l us)
  with assms show ?thesis
    using escapes_not_empty [of "unat u"] escapes_not_empty [of "codePoint u l"]
    by (auto simp: consR_Inr split: if_splits)
qed


section \<open>The platform instance: JSON\<close>

lemma digits16: "(n::nat) div 16 * (16 * k) + n mod 16 * k = n * k"
proof -
  have "n * k = (n div 16 * 16 + n mod 16) * k"
    by (simp only: div_mult_mod_eq)
  also have "\<dots> = n div 16 * (16 * k) + n mod 16 * k"
    by (simp only: add_mult_distrib mult.assoc)
  finally show ?thesis by simp
qed

lemma split16:
  "4096 * ((n::nat) div 4096) + 256 * (n div 256 mod 16) + 16 * (n div 16 mod 16) + n mod 16 = n"
proof -
  have a: "n div 4096 = n div 256 div 16" and b: "n div 256 = n div 16 div 16"
    by (simp_all add: div_mult2_eq)
  have c: "n div 16 div 16 * 256 + n div 16 mod 16 * 16 = n div 16 * 16"
    using digits16 [of "n div 16" 16] by simp
  have d: "n div 256 div 16 * 4096 + n div 256 mod 16 * 256 = n div 256 * 256"
    using digits16 [of "n div 256" 256] by simp
  have "n div 256 * 256 + n div 16 mod 16 * 16 + n mod 16 = n"
    unfolding b using c by simp
  then show ?thesis
    unfolding a using d by (simp add: mult.commute)
qed

lemma hex4_unicodeEscape:
  "hex4 (lowerHexDigit (unat u div 4096)) (lowerHexDigit (unat u div 256 mod 16))
        (lowerHexDigit (unat u div 16 mod 16)) (lowerHexDigit (unat u mod 16)) = Some (u :: unit16)"
proof -
  have "unat u div 4096 < 16"
    using unit_range [of u] by simp
  then show ?thesis
    by (simp add: hex4_def hexValue_lowerHexDigit split16)
qed

lemma surrogate_literal:
  assumes "isHighSurrogate u \<or> isLowSurrogate u"
  shows "u \<noteq> 0x22" and "u \<noteq> 0x5C" and "\<not> u < 0x20"
  using assms
  by (auto simp: isHighSurrogate_def isLowSurrogate_def word_le_nat_alt word_less_nat_alt)

lemma scan_literal:
  "u \<noteq> 0x22 \<Longrightarrow> u \<noteq> 0x5C \<Longrightarrow> \<not> u < 0x20 \<Longrightarrow>
   scanStrings (InString cur) acc (u # rest) = scanStrings (InString (cur @ [u])) acc rest"
  by simp

lemma scan_unicodeEscape:
  "scanStrings (InString cur) acc (unicodeEscape u @ rest)
     = scanStrings (InString (cur @ [u])) acc rest"
  by (simp add: unicodeEscape_def hex4_unicodeEscape)

lemma scan_quoteUnit:
  "scanStrings (InString cur) acc (quoteUnit u @ rest)
     = scanStrings (InString (cur @ [u])) acc rest"
proof (cases "u = 0x08 \<or> u = 0x09 \<or> u = 0x0A \<or> u = 0x0C \<or> u = 0x0D \<or> u = 0x22 \<or> u = 0x5C")
  case True
  then show ?thesis
    by (auto simp: quoteUnit_def unescape_def)
next
  case False
  show ?thesis
  proof (cases "u < 0x20 \<or> isHighSurrogate u \<or> isLowSurrogate u")
    case True
    with False show ?thesis
      by (simp add: quoteUnit_def scan_unicodeEscape)
  next
    case n: False
    with False show ?thesis
      by (simp add: quoteUnit_def)
  qed
qed

lemma scan_quoteChars:
  "scanStrings (InString cur) acc (quoteChars s @ 0x22 # rest)
     = scanStrings AfterString (acc @ [cur @ s]) rest"
proof (induction s arbitrary: cur rule: quoteChars.induct)
  case 1
  show ?case by simp
next
  case (2 u)
  show ?case by (simp add: scan_quoteUnit)
next
  case (3 u l us)
  show ?case
  proof (cases "isHighSurrogate u \<and> isLowSurrogate l")
    case True
    then have q: "quoteChars (u # l # us) = u # l # quoteChars us"
      by simp
    have hu: "u \<noteq> 0x22" "u \<noteq> 0x5C" "\<not> u < 0x20"
      and hl: "l \<noteq> 0x22" "l \<noteq> 0x5C" "\<not> l < 0x20"
      using True surrogate_literal [of u] surrogate_literal [of l] by blast+
    have "scanStrings (InString cur) acc (u # l # quoteChars us @ 0x22 # rest)
            = scanStrings (InString ((cur @ [u]) @ [l])) acc (quoteChars us @ 0x22 # rest)"
      by (simp only: scan_literal [OF hu] scan_literal [OF hl])
    then show ?thesis
      using 3(1) [OF True, of "(cur @ [u]) @ [l]"] by (simp only: q append.simps append_assoc)
  next
    case False
    then have q: "quoteChars (u # l # us) = quoteUnit u @ quoteChars (l # us)"
      by auto
    show ?thesis
      using 3(2) [OF False, of "cur @ [u]"]
      by (simp only: q append.simps append_assoc scan_quoteUnit)
  qed
qed

lemma scan_elements:
  "scanStrings AfterString acc
     (concat (map (\<lambda>t. str '','' @ quoteJSONString t) ts) @ str '']'')
     = Some (acc @ ts)"
proof (induction ts arbitrary: acc)
  case Nil
  show ?case by (simp add: str_def jsonWhitespace_def)
next
  case (Cons t ts)
  have "scanStrings AfterString acc
          (str '','' @ quoteJSONString t
             @ concat (map (\<lambda>t. str '','' @ quoteJSONString t) ts) @ str '']'')
        = scanStrings (InString []) acc
            (quoteChars t @ 0x22 # concat (map (\<lambda>t. str '','' @ quoteJSONString t) ts) @ str '']'')"
    by (simp add: str_def quoteJSONString_def jsonWhitespace_def)
  then show ?case
    using Cons [of "acc @ [t]"] by (simp add: scan_quoteChars)
qed

lemma join_concat: "join sep (x # xs) = x @ concat (map (\<lambda>y. sep @ y) xs)"
  by (induction xs arbitrary: x) simp_all

lemma stringifyStrings_Cons:
  "stringifyStrings (t # ts)
     = str ''['' @ quoteJSONString t
         @ concat (map (\<lambda>t. str '','' @ quoteJSONString t) ts) @ str '']''"
  by (simp add: stringifyStrings_def join_concat comp_def)

lemma parseStrings_stringifyStrings: "parseStrings (stringifyStrings ts) = Inr ts"
proof (cases ts)
  case Nil
  then show ?thesis
    by (simp add: parseStrings_def stringifyStrings_def str_def jsonWhitespace_def)
next
  case (Cons t ts')
  have "scanStrings Start []
          (str ''['' @ quoteJSONString t
             @ concat (map (\<lambda>t. str '','' @ quoteJSONString t) ts') @ str '']'')
        = scanStrings (InString []) []
            (quoteChars t @ 0x22 # concat (map (\<lambda>t. str '','' @ quoteJSONString t) ts') @ str '']'')"
    by (simp add: str_def quoteJSONString_def jsonWhitespace_def)
  also have "\<dots> = Some (t # ts')"
    using scan_elements [of "[t]" ts'] by (simp only: scan_quoteChars append.simps)
  finally show ?thesis
    by (simp only: parseStrings_def stringifyStrings_Cons Cons option.case)
qed

lemma stringifyStrings_not_empty: "stringifyStrings ts \<noteq> []"
  by (simp add: stringifyStrings_def str_def)


section \<open>The metadata codec\<close>

text \<open>What the store keeps of each of the five headers, and how a header is looked up.\<close>

lemma stored_Nil: "storedMetadata [] = []"
  by (simp add: storedMetadata_def)

lemma stored_headers:
  "storedMetadata ((str ''x-amz-meta-user-id'', v) # hs) = (str ''user-id'', v) # storedMetadata hs"
  "storedMetadata ((str ''x-amz-meta-original-filename'', v) # hs)
     = (str ''original-filename'', v) # storedMetadata hs"
  "storedMetadata ((str ''x-amz-meta-tags'', v) # hs) = (str ''tags'', v) # storedMetadata hs"
  "storedMetadata ((str ''x-amz-meta-is-public'', v) # hs)
     = (str ''is-public'', v) # storedMetadata hs"
  "storedMetadata ((str ''x-amz-meta-description'', v) # hs)
     = (str ''description'', v) # storedMetadata hs"
  by (simp_all add: storedMetadata_def metaPrefix_def startsWith_def str_def)

lemma header_Nil: "header [] k = None"
  by (simp add: header_def)

lemma header_Cons:
  "header ((n, v) # hs) k = (if n = k then (if v \<noteq> [] then Some v else None) else header hs k)"
  by (simp add: header_def)

lemma header_names:
  "str ''user-id'' \<noteq> str ''original-filename''" "str ''user-id'' \<noteq> str ''tags''"
  "str ''user-id'' \<noteq> str ''is-public''" "str ''user-id'' \<noteq> str ''description''"
  "str ''original-filename'' \<noteq> str ''user-id''" "str ''original-filename'' \<noteq> str ''tags''"
  "str ''original-filename'' \<noteq> str ''is-public''"
  "str ''original-filename'' \<noteq> str ''description''"
  "str ''tags'' \<noteq> str ''user-id''" "str ''tags'' \<noteq> str ''original-filename''"
  "str ''tags'' \<noteq> str ''is-public''" "str ''tags'' \<noteq> str ''description''"
  "str ''is-public'' \<noteq> str ''user-id''" "str ''is-public'' \<noteq> str ''original-filename''"
  "str ''is-public'' \<noteq> str ''tags''" "str ''is-public'' \<noteq> str ''description''"
  "str ''description'' \<noteq> str ''user-id''" "str ''description'' \<noteq> str ''original-filename''"
  "str ''description'' \<noteq> str ''tags''" "str ''description'' \<noteq> str ''is-public''"
  by (simp_all add: str_def)

lemma boolean_texts:
  "str ''true'' \<noteq> []" "str ''false'' \<noteq> []" "str ''false'' \<noteq> str ''true''"
  by (simp_all add: str_def)

text \<open>
  The round trip for any platform, from what the built-ins do on the fields of the record:
  the two URI functions and the two JSON functions undo each other there, and no present
  string is empty.
\<close>

lemma codec_round_trip:
  assumes "\<forall>u. userId m = Some u \<longrightarrow> u \<noteq> []"
    and "\<forall>f. originalFilename m = Some f \<longrightarrow>
           f \<noteq> [] \<and> (\<exists>e. encodeURIComponent P f = Inr e \<and> e \<noteq> []
                          \<and> decodeURIComponent P e = Inr f)"
    and "\<forall>ts. tags m = Some ts \<longrightarrow>
           JSON_stringify P ts \<noteq> [] \<and> JSON_parse P (JSON_stringify P ts) = Inr ts"
    and "\<forall>d. description m = Some d \<longrightarrow>
           d \<noteq> [] \<and> (\<exists>e. encodeURIComponent P d = Inr e \<and> e \<noteq> []
                          \<and> decodeURIComponent P e = Inr d)"
  shows "\<exists>hs. metadataHeaders P (Some m) = Inr hs
           \<and> extractMetadata P (Some (storedMetadata hs)) = Inr (m\<lparr>extension := []\<rparr>)"
proof -
  obtain u f t p d x
    where m: "m = \<lparr> userId = u, originalFilename = f, tags = t, isPublic = p,
                    description = d, extension = x \<rparr>"
    by (cases m) auto
  show ?thesis
    using assms unfolding m
    by (cases u; cases f; cases t; cases p; cases d)
      (auto simp: metadataHeaders_def extractMetadata_def emptyMetadata_def stored_Nil
        stored_headers header_Nil header_Cons header_names boolean_texts)
qed


text \<open>A description that is one unpaired surrogate: building the headers throws.\<close>

lemma lone_surrogate_throws:
  "metadataHeaders ecma (Some (emptyMetadata\<lparr>description := Some [0xD800]\<rparr>)) = Inl URIError"
  by (simp add: metadataHeaders_def emptyMetadata_def ecma_def uriUnreserved_def alphaNumeric_def
      isHighSurrogate_def)

text \<open>
  C2, as amended. Take the store's convention that a header \<^verbatim>\<open>x-amz-meta-NAME\<close> comes back
  as the metadata \<^verbatim>\<open>NAME\<close>. For every record whose \<^verbatim>\<open>userId\<close>, \<^verbatim>\<open>originalFilename\<close> and
  \<^verbatim>\<open>description\<close>, where present, are not empty, and whose \<^verbatim>\<open>originalFilename\<close> and
  \<^verbatim>\<open>description\<close> hold no unpaired surrogate, the headers are built without an error, and
  reading them back gives the record with its five named fields as they were and without
  its extra keys. \<^verbatim>\<open>tags\<close> and \<^verbatim>\<open>isPublic\<close> come back for every value.
\<close>

theorem metadata_round_trip:
  assumes "\<forall>u. userId m = Some u \<longrightarrow> u \<noteq> []"
    and "\<forall>f. originalFilename m = Some f \<longrightarrow> f \<noteq> [] \<and> wellFormed f"
    and "\<forall>d. description m = Some d \<longrightarrow> d \<noteq> [] \<and> wellFormed d"
  shows "\<exists>hs. metadataHeaders ecma (Some m) = Inr hs
           \<and> extractMetadata ecma (Some (storedMetadata hs)) = Inr (m\<lparr>extension := []\<rparr>)"
proof (rule codec_round_trip)
  show "\<forall>u. userId m = Some u \<longrightarrow> u \<noteq> []"
    by (rule assms(1))
  have uri: "\<exists>e. encodeURIComponent ecma s = Inr e \<and> e \<noteq> [] \<and> decodeURIComponent ecma e = Inr s"
    if ne: "s \<noteq> []" and wf: "wellFormed s" for s
  proof -
    obtain e where e: "uriEncode s = Inr e"
      using uriEncode_wellFormed [OF wf] by blast
    then show ?thesis
      using uriEncode_not_empty [OF e ne] uriDecode_uriEncode [OF e]
      by (simp add: ecma_def)
  qed
  show "\<forall>f. originalFilename m = Some f \<longrightarrow>
          f \<noteq> [] \<and> (\<exists>e. encodeURIComponent ecma f = Inr e \<and> e \<noteq> []
                         \<and> decodeURIComponent ecma e = Inr f)"
    using assms(2) uri by blast
  show "\<forall>d. description m = Some d \<longrightarrow>
          d \<noteq> [] \<and> (\<exists>e. encodeURIComponent ecma d = Inr e \<and> e \<noteq> []
                         \<and> decodeURIComponent ecma e = Inr d)"
    using assms(3) uri by blast
  show "\<forall>ts. tags m = Some ts \<longrightarrow>
          JSON_stringify ecma ts \<noteq> [] \<and> JSON_parse ecma (JSON_stringify ecma ts) = Inr ts"
    by (simp add: ecma_def stringifyStrings_not_empty parseStrings_stringifyStrings)
qed

theorem metadata_round_trip_witness:
  "wellFormed ([0xE9, 0x74, 0xE9, 0x20, 0xD83D, 0xDE00] @ str ''.jpg'')
   \<and> (\<exists>hs. metadataHeaders ecma (Some exampleMetadata) = Inr hs
           \<and> extractMetadata ecma (Some (storedMetadata hs))
               = Inr \<lparr> userId = Some (str ''user123''),
                       originalFilename = Some ([0xE9, 0x74, 0xE9, 0x20, 0xD83D, 0xDE00] @ str ''.jpg''),
                       tags = Some [str ''photo'', str ''profile''],
                       isPublic = Some True,
                       description = Some (str ''a b''),
                       extension = [] \<rparr>)"
proof -
  have w: "wellFormed ([0xE9, 0x74, 0xE9, 0x20, 0xD83D, 0xDE00] @ str ''.jpg'')"
    by (simp add: isHighSurrogate_def isLowSurrogate_def str_def)
  have h1: "\<forall>u. userId exampleMetadata = Some u \<longrightarrow> u \<noteq> []"
    by (simp add: exampleMetadata_def str_def)
  have h2: "\<forall>f. originalFilename exampleMetadata = Some f \<longrightarrow> f \<noteq> [] \<and> wellFormed f"
    by (simp add: exampleMetadata_def isHighSurrogate_def isLowSurrogate_def str_def)
  have h3: "\<forall>d. description exampleMetadata = Some d \<longrightarrow> d \<noteq> [] \<and> wellFormed d"
    by (simp add: exampleMetadata_def isHighSurrogate_def isLowSurrogate_def str_def)
  have e: "exampleMetadata\<lparr>extension := []\<rparr>
             = \<lparr> userId = Some (str ''user123''),
                 originalFilename = Some ([0xE9, 0x74, 0xE9, 0x20, 0xD83D, 0xDE00] @ str ''.jpg''),
                 tags = Some [str ''photo'', str ''profile''],
                 isPublic = Some True,
                 description = Some (str ''a b''),
                 extension = [] \<rparr>"
    by (simp add: exampleMetadata_def)
  show ?thesis
    using metadata_round_trip [OF h1 h2 h3] w unfolding e by blast
qed

text \<open>
  C2 as stated fails for a record whose \<^verbatim>\<open>userId\<close> is the empty string, which the request
  schema accepts: the truthiness test writes no header for it, and the record read back has
  no \<^verbatim>\<open>userId\<close>.
\<close>

theorem empty_userId_is_lost:
  "metadataHeaders ecma (Some (emptyMetadata\<lparr>userId := Some []\<rparr>)) = Inr []
   \<and> extractMetadata ecma (Some (storedMetadata [])) = Inr emptyMetadata
   \<and> emptyMetadata \<noteq> emptyMetadata\<lparr>userId := Some []\<rparr>"
  by (simp add: metadataHeaders_def extractMetadata_def storedMetadata_def header_def
      emptyMetadata_def)



end
